theory Spec2Isabelle
  imports Complex_Main "HOL-Library.Word"
begin

section \<open>The chat-stream route: values, environment and effects\<close>

text \<open>
  This theory embeds \<^verbatim>\<open>src/app/api/chat-stream/route.ts\<close>: the \<^verbatim>\<open>POST\<close> handler
  that validates a JSON request, selects a Gemini model, configures the search tool,
  calls the provider with one fallback and relays the generated chunks as server-sent
  events.

  A JavaScript string is a sequence of code units. The handler only compares strings
  with ASCII literals, searches them for ASCII literals and counts their code units, so
  one \<^typ>\<open>char\<close> stands for one code unit.
\<close>

type_synonym jsstring = string

text \<open>
  The values \<^verbatim>\<open>request.json()\<close> can produce, and \<^verbatim>\<open>undefined\<close> for a property
  that is not there. A number is kept as a rational: \<^verbatim>\<open>JSON.parse\<close> yields no NaN, and the
  handler only asks of a number whether it is zero and whether it is positive. An object
  is its property table; the first entry of a key is the one that counts.
\<close>

datatype jsval =
    JUndefined
  | JNull
  | JBool bool
  | JNum rat
  | JStr jsstring
  | JArr "jsval list"
  | JObj "(jsstring \<times> jsval) list"

text \<open>
  What a \<^verbatim>\<open>throw\<close> carries: an instance of \<^verbatim>\<open>Error\<close> with its message, or some other
  value (neither \<^verbatim>\<open>null\<close> nor \<^verbatim>\<open>undefined\<close>) with the string under its \<^verbatim>\<open>message\<close>
  property, when it has one.
\<close>

datatype thrown = ErrorObj jsstring | NonError "jsstring option"

text \<open>
  How a stretch of asynchronous code is left: it returns, it throws, or the promise it
  awaits never settles.
\<close>

datatype 'a completion = Returned 'a | Threw thrown | Hung

text \<open>The places where the engine itself raises a \<^verbatim>\<open>TypeError\<close>, with the offending value.\<close>

datatype throw_site =
    DestructureBody jsval
  | ImagesMap jsval
  | Base64Replace jsval
  | ToPrimitive jsval

datatype tool = GoogleSearch

datatype part = TextPart jsstring | InlineData jsstring jsstring

record content =
  role :: jsstring
  parts :: "part list"

text \<open>
  The argument of \<^verbatim>\<open>generateContentStream\<close>. \<open>tools = None\<close> is a configuration without
  the \<^verbatim>\<open>tools\<close> key.
\<close>

record request_config =
  contents :: "content list"
  tools :: "tool list option"

text \<open>
  What the provider's stream yields: a chunk whose \<^verbatim>\<open>text()\<close> returns a string, or one
  whose \<^verbatim>\<open>text()\<close> throws. After its chunks the stream ends, throws, or never yields
  again.
\<close>

datatype chunk = Chunk jsstring | ChunkThrows thrown

datatype ending = Ends | Fails thrown | Stalls

record upstream =
  chunks :: "chunk list"
  ending :: ending

text \<open>The JSON payload of one \<^verbatim>\<open>data:\<close> frame.\<close>

datatype event = Token jsstring jsstring | Done | Error jsstring

text \<open>
  Everything the handler reads from outside its arguments:
  \<^item> \<open>api_key\<close>: \<^verbatim>\<open>process.env.GEMINI_API_KEY\<close>;
  \<^item> \<open>model_init\<close>: whether \<^verbatim>\<open>genAI.getGenerativeModel\<close> throws for a model name;
  \<^item> \<open>generate\<close>: how the \<open>k\<close>-th call of \<^verbatim>\<open>generateContentStream\<close> on the named
    model goes;
  \<^item> \<open>accepts\<close>: whether the \<open>k\<close>-th call of \<^verbatim>\<open>controller.enqueue\<close> finds the stream
    open (it throws otherwise);
  \<^item> \<open>now\<close>: the \<open>k\<close>-th reading of the clock, as an ISO string;
  \<^item> \<open>engine_message\<close>: the message of the engine's \<^verbatim>\<open>TypeError\<close>;
  \<^item> \<open>buffer_from_base64\<close>, \<open>buffer_to_base64\<close>: Node's \<^verbatim>\<open>Buffer.from(s, 'base64')\<close> and
    \<^verbatim>\<open>buf.toString('base64')\<close>;
  \<^item> \<open>to_number_gt0\<close>: \<^verbatim>\<open>v > 0\<close> for a string \<open>v\<close>, or an array \<open>v\<close> whose conversion to
    a string does not throw, which the engine decides by parsing a numeric literal.
\<close>

record env =
  api_key :: "jsstring option"
  model_init :: "jsstring \<Rightarrow> thrown option"
  generate :: "jsstring \<Rightarrow> nat \<Rightarrow> request_config \<Rightarrow> upstream completion"
  accepts :: "nat \<Rightarrow> bool"
  now :: "nat \<Rightarrow> jsstring"
  engine_message :: "throw_site \<Rightarrow> jsstring"
  buffer_from_base64 :: "jsstring \<Rightarrow> 8 word list"
  buffer_to_base64 :: "8 word list \<Rightarrow> jsstring"
  to_number_gt0 :: "jsval \<Rightarrow> bool"

text \<open>
  The effects of one request: the provider calls made (model name and configuration),
  every event handed to \<^verbatim>\<open>controller.enqueue\<close> with whether it went in, the events
  in the stream's queue, and whether \<^verbatim>\<open>controller.close()\<close> ran.
\<close>

record exec =
  calls :: "(jsstring \<times> request_config) list"
  attempts :: "(event \<times> bool) list"
  queue :: "event list"
  closed :: bool

record json_reply =
  error :: jsstring
  hint :: "jsstring option"
  debug :: "jsstring option"
  details :: "jsstring option"
  timestamp :: "jsstring option"

datatype response =
    JsonResponse json_reply nat
  | StreamResponse "(jsstring \<times> jsstring) list"

record outcome =
  response :: response
  run :: exec

section \<open>JavaScript primitives the handler uses\<close>

fun truthy :: "jsval \<Rightarrow> bool" where
  "truthy JUndefined = False"
| "truthy JNull = False"
| "truthy (JBool b) = b"
| "truthy (JNum q) = (q \<noteq> 0)"
| "truthy (JStr s) = (s \<noteq> [])"
| "truthy (JArr vs) = True"
| "truthy (JObj kvs) = True"

text \<open>
  \<^verbatim>\<open>v[k]\<close> for one of the keys the handler destructures; no prototype has them, so
  only an object's own table can answer.
\<close>

fun get_prop :: "jsval \<Rightarrow> jsstring \<Rightarrow> jsval" where
  "get_prop (JObj kvs) k = (case map_of kvs k of Some v \<Rightarrow> v | None \<Rightarrow> JUndefined)"
| "get_prop v k = JUndefined"

text \<open>A destructuring default \<^verbatim>\<open>{ x = d }\<close>: taken for \<^verbatim>\<open>undefined\<close> only.\<close>

definition with_default :: "jsval \<Rightarrow> jsval \<Rightarrow> jsval" where
  "with_default d v = (if v = JUndefined then d else v)"

text \<open>\<^verbatim>\<open>v.length\<close> of a truthy value.\<close>

fun js_length :: "jsval \<Rightarrow> jsval" where
  "js_length (JArr vs) = JNum (of_nat (length vs))"
| "js_length (JStr s) = JNum (of_nat (length s))"
| "js_length (JObj kvs) = get_prop (JObj kvs) ''length''"
| "js_length v = JUndefined"

text \<open>
  Whether converting a value to a primitive throws. A parsed object has no callable
  property of its own, so an own \<^verbatim>\<open>toString\<close> hides the inherited method and leaves the
  engine nothing to call: it raises a \<^verbatim>\<open>TypeError\<close>. (An own \<^verbatim>\<open>valueOf\<close> alone does not:
  the inherited \<^verbatim>\<open>toString\<close> still answers.) An array is joined, which converts every
  element that is not \<^verbatim>\<open>null\<close>.
\<close>

fun to_string_throws :: "jsval \<Rightarrow> bool" where
  "to_string_throws (JObj kvs) = (map_of kvs ''toString'' \<noteq> None)"
| "to_string_throws (JArr vs) = (\<exists>v\<in>set vs. to_string_throws v)"
| "to_string_throws v = False"

text \<open>
  \<^verbatim>\<open>v > 0\<close>: \<^verbatim>\<open>undefined\<close> converts to NaN and \<^verbatim>\<open>null\<close> to 0; an object or an array is
  converted to a primitive first, which throws or gives a string (for an object
  \<^verbatim>\<open>[object Object]\<close>, which is NaN).
\<close>

fun js_gt0 :: "env \<Rightarrow> jsval \<Rightarrow> thrown + bool" where
  "js_gt0 E (JNum q) = Inr (0 < q)"
| "js_gt0 E (JBool b) = Inr b"
| "js_gt0 E JUndefined = Inr False"
| "js_gt0 E JNull = Inr False"
| "js_gt0 E (JStr s) = Inr (to_number_gt0 E (JStr s))"
| "js_gt0 E (JArr vs) =
     (if to_string_throws (JArr vs) then Inl (ErrorObj (engine_message E (ToPrimitive (JArr vs))))
      else Inr (to_number_gt0 E (JArr vs)))"
| "js_gt0 E (JObj kvs) =
     (if to_string_throws (JObj kvs) then Inl (ErrorObj (engine_message E (ToPrimitive (JObj kvs))))
      else Inr False)"

definition starts_with :: "jsstring \<Rightarrow> jsstring \<Rightarrow> bool" where
  "starts_with s p = (take (length p) s = p)"

text \<open>\<^verbatim>\<open>s.includes(p)\<close>.\<close>

fun js_includes :: "jsstring \<Rightarrow> jsstring \<Rightarrow> bool" where
  "js_includes [] p = (p = [])"
| "js_includes (c # cs) p = (starts_with (c # cs) p \<or> js_includes cs p)"

text \<open>The characters \<^verbatim>\<open>trim()\<close> removes, among the code units below 256.\<close>

definition is_space :: "char \<Rightarrow> bool" where
  "is_space c = (of_char c \<in> {9, 10, 11, 12, 13, 32, 160 :: nat})"

definition trim :: "jsstring \<Rightarrow> jsstring" where
  "trim s = rev (dropWhile is_space (rev (dropWhile is_space s)))"

text \<open>The class \<^verbatim>\<open>\w\<close>.\<close>

definition is_word :: "char \<Rightarrow> bool" where
  "is_word c = (let n = (of_char c :: nat) in
     (48 \<le> n \<and> n \<le> 57) \<or> (65 \<le> n \<and> n \<le> 90) \<or> (97 \<le> n \<and> n \<le> 122) \<or> n = 95)"

section \<open>The handler\<close>

text \<open>
  \<^verbatim>\<open>base64.replace(/^data:image\/\w+;base64,/, '')\<close>: the longest run of word characters
  after \<^verbatim>\<open>data:image/\<close> is the only one a \<^verbatim>\<open>;\<close> can follow.
\<close>

definition strip_data_uri :: "jsstring \<Rightarrow> jsstring" where
  "strip_data_uri s =
     (if starts_with s ''data:image/'' then
        (let rest = drop 11 s; after = dropWhile is_word rest in
           if takeWhile is_word rest \<noteq> [] \<and> starts_with after '';base64,''
           then drop 8 after else s)
      else s)"

definition base64ToBuffer :: "env \<Rightarrow> jsstring \<Rightarrow> 8 word list" where
  "base64ToBuffer E base64 = buffer_from_base64 E (strip_data_uri base64)"

definition googleSearchTool :: tool where
  "googleSearchTool = GoogleSearch"

text \<open>The image part of one value; a value without \<^verbatim>\<open>replace\<close> makes the engine throw.\<close>

fun imagePart :: "env \<Rightarrow> jsval \<Rightarrow> thrown + part" where
  "imagePart E (JStr imageData) =
     Inr (InlineData (buffer_to_base64 E (base64ToBuffer E imageData)) ''image/jpeg'')"
| "imagePart E v = Inl (ErrorObj (engine_message E (Base64Replace v)))"

text \<open>\<^verbatim>\<open>images.map(...)\<close> on an array: in order, abandoned at the first throw.\<close>

fun imageParts :: "env \<Rightarrow> jsval list \<Rightarrow> thrown + part list" where
  "imageParts E [] = Inr []"
| "imageParts E (v # vs) =
     (case imagePart E v of
        Inl e \<Rightarrow> Inl e
      | Inr p \<Rightarrow> (case imageParts E vs of Inl e \<Rightarrow> Inl e | Inr ps \<Rightarrow> Inr (p # ps)))"

text \<open>
  The \<^verbatim>\<open>parts\<close> of the three branches of \<^verbatim>\<open>start\<close> (lines 126 to 163): the images
  array, the legacy image, text only. The test \<^verbatim>\<open>images && images.length > 0\<close> comes
  first; its comparison is evaluated for a truthy \<^verbatim>\<open>images\<close> only, and may throw.
\<close>

definition content_parts :: "env \<Rightarrow> jsstring \<Rightarrow> jsval \<Rightarrow> jsval \<Rightarrow> thrown + part list" where
  "content_parts E message image' images =
     (case (if truthy images then js_gt0 E (js_length images) else Inr False) of
        Inl e \<Rightarrow> Inl e
      | Inr has_images \<Rightarrow>
          if has_images then
            (case images of
               JArr vs \<Rightarrow>
                 (case imageParts E vs of
                    Inl e \<Rightarrow> Inl e
                  | Inr ps \<Rightarrow> Inr (TextPart message # ps))
             | _ \<Rightarrow> Inl (ErrorObj (engine_message E (ImagesMap images))))
          else if truthy image' then
            (case imagePart E image' of
               Inl e \<Rightarrow> Inl e
             | Inr p \<Rightarrow> Inr [TextPart message, p])
          else Inr [TextPart message])"

text \<open>\<^verbatim>\<open>error.message?.includes(p)\<close>.\<close>

fun message_includes :: "thrown \<Rightarrow> jsstring \<Rightarrow> bool" where
  "message_includes (ErrorObj m) p = js_includes m p"
| "message_includes (NonError (Some m)) p = js_includes m p"
| "message_includes (NonError None) p = False"

definition grounding_unsupported :: "thrown \<Rightarrow> bool" where
  "grounding_unsupported e =
     (message_includes e ''Search Grounding is not supported'' \<or>
      message_includes e ''google_search_retrieval is not supported'')"

text \<open>One call of \<^verbatim>\<open>model.generateContentStream\<close>, logged.\<close>

definition call_provider ::
  "env \<Rightarrow> jsstring \<Rightarrow> request_config \<Rightarrow> exec \<Rightarrow> upstream completion \<times> exec" where
  "call_provider E modelName cfg s =
     (generate E modelName (length (calls s)) cfg,
      s\<lparr>calls := calls s @ [(modelName, cfg)]\<rparr>)"

definition generateStreamWithFallback ::
  "env \<Rightarrow> jsstring \<Rightarrow> jsval \<Rightarrow> request_config \<Rightarrow> exec \<Rightarrow> upstream completion \<times> exec" where
  "generateStreamWithFallback E modelName useGrounding requestConfig s =
     (case call_provider E modelName requestConfig s of
        (Threw e, s1) \<Rightarrow>
          if truthy useGrounding \<and> grounding_unsupported e
          then call_provider E modelName (requestConfig\<lparr>tools := None\<rparr>) s1
          else (Threw e, s1)
      | (r, s1) \<Rightarrow> (r, s1))"

text \<open>\<^verbatim>\<open>controller.enqueue\<close>: \<open>True\<close> when the event went into the queue, \<open>False\<close> when it threw.\<close>

definition enqueue :: "env \<Rightarrow> event \<Rightarrow> exec \<Rightarrow> bool \<times> exec" where
  "enqueue E ev s =
     (if \<not> closed s \<and> accepts E (length (attempts s))
      then (True, s\<lparr>attempts := attempts s @ [(ev, True)], queue := queue s @ [ev]\<rparr>)
      else (False, s\<lparr>attempts := attempts s @ [(ev, False)]\<rparr>))"

text \<open>
  The \<^verbatim>\<open>for await\<close> loop (lines 166 to 185). A failed enqueue is the \<^verbatim>\<open>break\<close>; an empty
  text is skipped.
\<close>

fun relay :: "env \<Rightarrow> chunk list \<Rightarrow> ending \<Rightarrow> exec \<Rightarrow> unit completion \<times> exec" where
  "relay E [] Ends s = (Returned (), s)"
| "relay E [] (Fails e) s = (Threw e, s)"
| "relay E [] Stalls s = (Hung, s)"
| "relay E (ChunkThrows e # rest) fin s = (Threw e, s)"
| "relay E (Chunk chunkText # rest) fin s =
     (if chunkText \<noteq> [] then
        (case enqueue E (Token chunkText (now E (length (attempts s)))) s of
           (True, s1) \<Rightarrow> relay E rest fin s1
         | (False, s1) \<Rightarrow> (Returned (), s1))
      else relay E rest fin s)"

text \<open>Lines 188 to 196: a throw of the enqueue is swallowed.\<close>

definition send_done :: "env \<Rightarrow> exec \<Rightarrow> exec" where
  "send_done E s =
     (case enqueue E Done s of
        (True, s1) \<Rightarrow> s1\<lparr>closed := True\<rparr>
      | (False, s1) \<Rightarrow> s1)"

text \<open>Lines 198 to 217, the \<^verbatim>\<open>catch\<close> of \<^verbatim>\<open>start\<close>.\<close>

fun streaming_error_message :: "thrown \<Rightarrow> jsstring" where
  "streaming_error_message (ErrorObj m) = m"
| "streaming_error_message (NonError m) = ''Streaming error occurred''"

definition send_error :: "env \<Rightarrow> thrown \<Rightarrow> exec \<Rightarrow> exec" where
  "send_error E e s =
     (case enqueue E (Error (streaming_error_message e)) s of
        (True, s1) \<Rightarrow> s1\<lparr>closed := True\<rparr>
      | (False, s1) \<Rightarrow> s1)"

text \<open>The \<^verbatim>\<open>try\<close> block of \<^verbatim>\<open>start\<close>, lines 108 to 196.\<close>

definition start_try ::
  "env \<Rightarrow> jsstring \<Rightarrow> jsstring \<Rightarrow> jsval \<Rightarrow> jsval \<Rightarrow> jsval \<Rightarrow> tool list \<Rightarrow> exec \<Rightarrow>
     unit completion \<times> exec" where
  "start_try E modelName message image' images useGrounding tls s =
     (case content_parts E message image' images of
        Inl e \<Rightarrow> (Threw e, s)
      | Inr ps \<Rightarrow>
          (case generateStreamWithFallback E modelName useGrounding
                  \<lparr>contents = [\<lparr>role = ''user'', parts = ps\<rparr>], tools = Some tls\<rparr> s of
             (Returned result, s1) \<Rightarrow>
               (case relay E (chunks result) (ending result) s1 of
                  (Returned u, s2) \<Rightarrow> (Returned (), send_done E s2)
                | (r, s2) \<Rightarrow> (r, s2))
           | (Threw e, s1) \<Rightarrow> (Threw e, s1)
           | (Hung, s1) \<Rightarrow> (Hung, s1)))"

text \<open>\<^verbatim>\<open>start(controller)\<close>, lines 106 to 218.\<close>

definition start ::
  "env \<Rightarrow> jsstring \<Rightarrow> jsstring \<Rightarrow> jsval \<Rightarrow> jsval \<Rightarrow> jsval \<Rightarrow> tool list \<Rightarrow> exec \<Rightarrow>
     unit completion \<times> exec" where
  "start E modelName message image' images useGrounding tls s =
     (case start_try E modelName message image' images useGrounding tls s of
        (Threw e, s1) \<Rightarrow> (Returned (), send_error E e s1)
      | (r, s1) \<Rightarrow> (r, s1))"

definition idle :: exec where
  "idle = \<lparr>calls = [], attempts = [], queue = [], closed = False\<rparr>"

definition reply :: "jsstring \<Rightarrow> json_reply" where
  "reply e = \<lparr>error = e, hint = None, debug = None, details = None, timestamp = None\<rparr>"

definition json :: "json_reply \<Rightarrow> nat \<Rightarrow> outcome" where
  "json b status = \<lparr>response = JsonResponse b status, run = idle\<rparr>"

text \<open>Line 82: the model name.\<close>

definition modelName_of :: "jsval \<Rightarrow> jsstring" where
  "modelName_of aiModel =
     (if aiModel = JStr ''pro'' then ''gemini-2.5-pro-preview-06-05''
      else if aiModel = JStr ''smart'' then ''gemini-2.5-flash-preview-05-20''
      else ''gemini-2.0-flash-exp'')"

text \<open>Line 102: the tools array.\<close>

definition tools_of :: "jsval \<Rightarrow> jsval \<Rightarrow> tool list" where
  "tools_of aiModel useGrounding =
     (if aiModel = JStr ''internet'' \<and> truthy useGrounding then [googleSearchTool] else [])"

definition sse_headers :: "(jsstring \<times> jsstring) list" where
  "sse_headers =
     [(''Content-Type'', ''text/event-stream''),
      (''Cache-Control'', ''no-cache''),
      (''Connection'', ''keep-alive'')]"

text \<open>Lines 230 to 264, the \<^verbatim>\<open>catch\<close> of \<^verbatim>\<open>POST\<close>.\<close>

definition classify :: "thrown \<Rightarrow> jsstring \<times> nat" where
  "classify e =
     (case e of
        ErrorObj m \<Rightarrow>
          if js_includes m ''API key'' then (''API key probleem: '' @ m, 401)
          else if js_includes m ''quota'' \<or> js_includes m ''limit'' then (''API limiet bereikt: '' @ m, 429)
          else if js_includes m ''network'' \<or> js_includes m ''fetch'' then (''Netwerk probleem: '' @ m, 503)
          else (m, 500)
      | NonError m \<Rightarrow> (''Unknown error'', 500))"

definition status_hint :: "nat \<Rightarrow> jsstring" where
  "status_hint statusCode =
     (if statusCode = 401 then ''Controleer je GEMINI_API_KEY in environment variables''
      else if statusCode = 429 then ''Wacht even en probeer opnieuw''
      else if statusCode = 503 then ''Controleer je internetverbinding''
      else ''Probeer het opnieuw of neem contact op met support'')"

definition outer_catch :: "env \<Rightarrow> thrown \<Rightarrow> outcome" where
  "outer_catch E e =
     (case classify e of
        (errorMessage, statusCode) \<Rightarrow>
          json \<lparr>error = ''Er is een fout opgetreden bij het verwerken van je bericht'',
                hint = Some (status_hint statusCode),
                debug = None,
                details = Some errorMessage,
                timestamp = Some (now E 0)\<rparr> statusCode)"

text \<open>Line 64: the two destructured properties that have a default.\<close>

definition useGrounding_of :: "jsval \<Rightarrow> jsval" where
  "useGrounding_of body = with_default (JBool True) (get_prop body ''useGrounding'')"

definition aiModel_of :: "jsval \<Rightarrow> jsval" where
  "aiModel_of body = with_default (JStr ''smart'') (get_prop body ''aiModel'')"

text \<open>Lines 21 to 44: the two checks of the credential, with the response of the one that fails.\<close>

definition check_api_key :: "env \<Rightarrow> outcome option" where
  "check_api_key E =
     (case api_key E of
        None \<Rightarrow>
          Some (json ((reply ''API configuratie ontbreekt. Check Environment Variables.'')
                 \<lparr>hint := Some ''Voeg GEMINI_API_KEY toe aan je environment variables'',
                  debug := Some ''Environment variable GEMINI_API_KEY is not set''\<rparr>) 500)
      | Some key \<Rightarrow>
          if key = [] then
            Some (json ((reply ''API configuratie ontbreekt. Check Environment Variables.'')
                   \<lparr>hint := Some ''Voeg GEMINI_API_KEY toe aan je environment variables'',
                    debug := Some ''Environment variable GEMINI_API_KEY is not set''\<rparr>) 500)
          else if length (trim key) = 0 then
            Some (json ((reply ''API key is leeg of ongeldig'')
                   \<lparr>hint := Some ''Controleer of GEMINI_API_KEY correct is ingesteld'',
                    debug := Some ''GEMINI_API_KEY exists but is empty or not a string''\<rparr>) 500)
          else None)"

text \<open>
  Lines 66 to 79: the checks of \<^verbatim>\<open>message\<close>, with the response of the one that fails,
  or the string that passed both.
\<close>

definition check_message :: "jsval \<Rightarrow> outcome + jsstring" where
  "check_message message =
     (if \<not> truthy message then Inl (json (reply ''Bericht is vereist'') 400)
      else
        (case message of
           JStr text \<Rightarrow>
             if length text > 100000
             then Inl (json (reply
                    ''Bericht moet een string zijn van maximaal 100.000 karakters'') 400)
             else Inr text
         | _ \<Rightarrow>
             Inl (json (reply
               ''Bericht moet een string zijn van maximaal 100.000 karakters'') 400)))"

text \<open>
  Lines 81 to 228, for a message that passed: the model, the tools, and the stream whose
  producer runs \<^verbatim>\<open>start\<close>.
\<close>

definition open_stream :: "env \<Rightarrow> jsval \<Rightarrow> jsstring \<Rightarrow> outcome" where
  "open_stream E body message =
     (let image' = get_prop body ''image'';
          images = get_prop body ''images'';
          useGrounding = useGrounding_of body;
          aiModel = aiModel_of body;
          modelName = modelName_of aiModel
      in
        case model_init E modelName of
          Some modelError \<Rightarrow>
            json ((reply ''Kan AI model niet initialiseren'')
                   \<lparr>hint := Some ''Controleer of je API key geldig is'',
                    debug := Some (''Model initialization failed for '' @ modelName)\<rparr>) 500
        | None \<Rightarrow>
            \<lparr>response = StreamResponse sse_headers,
             run = snd (start E modelName message image' images useGrounding
                          (tools_of aiModel useGrounding) idle)\<rparr>)"

text \<open>
  Lines 19 to 229, the \<^verbatim>\<open>try\<close> of \<^verbatim>\<open>POST\<close>. \<open>parsed\<close> is what \<^verbatim>\<open>request.json()\<close> gives:
  \<open>None\<close> when it throws. Destructuring \<^verbatim>\<open>null\<close> throws a \<^verbatim>\<open>TypeError\<close>, the one throw
  that leaves this block.
\<close>

definition POST_try :: "env \<Rightarrow> jsval option \<Rightarrow> thrown + outcome" where
  "POST_try E parsed =
     (case check_api_key E of
        Some r \<Rightarrow> Inr r
      | None \<Rightarrow>
          (case parsed of
             None \<Rightarrow>
               Inr (json ((reply ''Ongeldig request formaat'')
                      \<lparr>hint := Some ''Request body moet geldige JSON zijn'',
                       debug := Some ''JSON parsing failed''\<rparr>) 400)
           | Some body \<Rightarrow>
               if body = JNull \<or> body = JUndefined
               then Inl (ErrorObj (engine_message E (DestructureBody body)))
               else
                 (case check_message (get_prop body ''message'') of
                    Inl r \<Rightarrow> Inr r
                  | Inr message \<Rightarrow> Inr (open_stream E body message))))"

definition POST :: "env \<Rightarrow> jsval option \<Rightarrow> outcome" where
  "POST E parsed = (case POST_try E parsed of Inl e \<Rightarrow> outer_catch E e | Inr r \<Rightarrow> r)"

section \<open>Notions the properties are stated with\<close>

fun is_token :: "event \<Rightarrow> bool" where
  "is_token (Token t ts) = True"
| "is_token ev = False"

text \<open>Some Token events, then at most one terminating event, which is the last.\<close>

fun well_formed :: "event list \<Rightarrow> bool" where
  "well_formed [] = True"
| "well_formed (Token t ts # evs) = well_formed evs"
| "well_formed (ev # evs) = (evs = [])"

fun status_of :: "response \<Rightarrow> nat" where
  "status_of (JsonResponse b status) = status"
| "status_of (StreamResponse hs) = 200"

text \<open>The tool lists of the provider calls of a run, in call order.\<close>

definition tool_lists :: "exec \<Rightarrow> tool list option list" where
  "tool_lists s = map (\<lambda>c. tools (snd c)) (calls s)"

text \<open>The Token events for the given chunk texts, the first stamped with clock reading \<open>n\<close>.\<close>

definition tokens_from :: "env \<Rightarrow> nat \<Rightarrow> jsstring list \<Rightarrow> event list" where
  "tokens_from E n texts =
     map (\<lambda>(k, t). Token t (now E k)) (enumerate n (filter (\<lambda>t. t \<noteq> []) texts))"

text \<open>The credential is there and is not blank: the two checks of lines 21 and 34 pass.\<close>

definition configured :: "env \<Rightarrow> bool" where
  "configured E = (case api_key E of None \<Rightarrow> False | Some key \<Rightarrow> trim key \<noteq> [])"


text \<open>
  Neither image branch of \<^verbatim>\<open>start\<close> is taken: \<^verbatim>\<open>images\<close> is falsy or its length is
  found not to be positive (the comparison returns \<^verbatim>\<open>false\<close>, it does not throw), and
  \<^verbatim>\<open>image\<close> is falsy.
\<close>

definition text_only :: "env \<Rightarrow> jsval \<Rightarrow> bool" where
  "text_only E body =
     ((\<not> truthy (get_prop body ''images'')
        \<or> js_gt0 E (js_length (get_prop body ''images'')) = Inr False)
      \<and> \<not> truthy (get_prop body ''image''))"

text \<open>
  The flag \<^verbatim>\<open>useGrounding\<close> as a request gives it: on when the property is absent (the
  default is \<^verbatim>\<open>true\<close>) or its value is truthy.
\<close>

definition flag_on :: "jsval \<Rightarrow> bool" where
  "flag_on v = (v = JUndefined \<or> truthy v)"

text \<open>
  The tool list a request is to get, read off its two properties: the search tool for
  \<^verbatim>\<open>aiModel = "internet"\<close> with the flag on, nothing otherwise.
\<close>

definition expected_tools :: "jsval \<Rightarrow> tool list" where
  "expected_tools body =
     (if get_prop body ''aiModel'' = JStr ''internet'' \<and> flag_on (get_prop body ''useGrounding'')
      then [GoogleSearch] else [])"

text \<open>
  The request gets as far as the stream: the credential is configured, the body
  destructures, \<^verbatim>\<open>message\<close> is the valid string \<open>msg\<close>, and the model handle is built.
\<close>

definition reaches_start :: "env \<Rightarrow> jsval \<Rightarrow> jsstring \<Rightarrow> bool" where
  "reaches_start E body msg =
     (configured E \<and> body \<noteq> JNull \<and> body \<noteq> JUndefined
      \<and> get_prop body ''message'' = JStr msg \<and> msg \<noteq> [] \<and> length msg \<le> 100000
      \<and> model_init E (modelName_of (aiModel_of body)) = None)"

text \<open>The configuration \<^verbatim>\<open>start\<close> hands to \<^verbatim>\<open>generateStreamWithFallback\<close> for the parts \<open>ps\<close>.\<close>

definition first_config :: "jsval \<Rightarrow> part list \<Rightarrow> request_config" where
  "first_config body ps =
     \<lparr>contents = [\<lparr>role = ''user'', parts = ps\<rparr>],
      tools = Some (tools_of (aiModel_of body) (useGrounding_of body))\<rparr>"

text \<open>\<open>s\<close> contains \<open>p\<close> as a substring.\<close>

definition contains :: "jsstring \<Rightarrow> jsstring \<Rightarrow> bool" where
  "contains s p = (\<exists>a b. s = a @ p @ b)"

text \<open>
  The classification of the outer error path in the specification's words: the status
  and the detail message by what the message of an \<^verbatim>\<open>Error\<close> contains, in this order.
\<close>

definition spec_status :: "thrown \<Rightarrow> nat" where
  "spec_status e =
     (case e of
        ErrorObj m \<Rightarrow>
          if contains m ''API key'' then 401
          else if contains m ''quota'' \<or> contains m ''limit'' then 429
          else if contains m ''network'' \<or> contains m ''fetch'' then 503
          else 500
      | NonError x \<Rightarrow> 500)"

definition spec_details :: "thrown \<Rightarrow> jsstring" where
  "spec_details e =
     (case e of
        ErrorObj m \<Rightarrow>
          if contains m ''API key'' then ''API key probleem: '' @ m
          else if contains m ''quota'' \<or> contains m ''limit'' then ''API limiet bereikt: '' @ m
          else if contains m ''network'' \<or> contains m ''fetch'' then ''Netwerk probleem: '' @ m
          else m
      | NonError x \<Rightarrow> ''Unknown error'')"

text \<open>A credential value that is empty or all whitespace.\<close>

definition blank :: "jsstring \<Rightarrow> bool" where
  "blank key = (\<forall>c\<in>set key. is_space c)"

text \<open>
  The image fields of a well-typed request, as values: an optional base64 string and an
  optional array of base64 strings.
\<close>

definition opt_string :: "jsstring option \<Rightarrow> jsval" where
  "opt_string v = (case v of None \<Rightarrow> JUndefined | Some s \<Rightarrow> JStr s)"

definition opt_strings :: "jsstring list option \<Rightarrow> jsval" where
  "opt_strings v = (case v of None \<Rightarrow> JUndefined | Some xs \<Rightarrow> JArr (map JStr xs))"

text \<open>
  The image part in the specification's words: the string without its data-URI prefix,
  decoded from base64, encoded to base64 again, typed \<^verbatim>\<open>image/jpeg\<close>.
\<close>

definition spec_image_part :: "env \<Rightarrow> jsstring \<Rightarrow> part" where
  "spec_image_part E s =
     InlineData (buffer_to_base64 E (buffer_from_base64 E (strip_data_uri s))) ''image/jpeg''"

text \<open>
  The parts list by cases, in priority order: a non-empty images array; else a non-empty
  legacy image; else the text alone.
\<close>

definition spec_parts ::
  "env \<Rightarrow> jsstring \<Rightarrow> jsstring option \<Rightarrow> jsstring list option \<Rightarrow> part list" where
  "spec_parts E msg img imgs =
     (case imgs of
        Some (x # xs) \<Rightarrow> TextPart msg # map (spec_image_part E) (x # xs)
      | _ \<Rightarrow>
          (case img of
             Some (c # cs) \<Rightarrow> [TextPart msg, spec_image_part E (c # cs)]
           | _ \<Rightarrow> [TextPart msg]))"

text \<open>The enqueue log of a relay loop: Token events, none but the last refused.\<close>

definition relay_log :: "(event \<times> bool) list \<Rightarrow> bool" where
  "relay_log new = ((\<forall>x\<in>set new. is_token (fst x)) \<and> (\<forall>x\<in>set (butlast new). snd x))"

definition last_ok :: "(event \<times> bool) list \<Rightarrow> bool" where
  "last_ok new = (new = [] \<or> snd (last new))"

subsection \<open>Concrete environments and requests\<close>

text \<open>
  A configured server whose provider answers every call with three chunks, the second
  of them empty, and whose client reads to the end.
\<close>

definition demo_env :: env where
  "demo_env =
     \<lparr>api_key = Some ''key'',
      model_init = (\<lambda>m. None),
      generate = (\<lambda>m k cfg. Returned \<lparr>chunks = [Chunk ''Hel'', Chunk [], Chunk ''lo''], ending = Ends\<rparr>),
      accepts = (\<lambda>k. True),
      now = (\<lambda>k. ''T''),
      engine_message = (\<lambda>site. ''TypeError''),
      buffer_from_base64 = (\<lambda>s. replicate (length s) 0),
      buffer_to_base64 = (\<lambda>bs. replicate (length bs) CHR ''A''),
      to_number_gt0 = (\<lambda>v. False)\<rparr>"

text \<open>The same server with a client that is gone before the first event.\<close>

definition gone_env :: env where
  "gone_env = demo_env\<lparr>accepts := (\<lambda>k. False)\<rparr>"

text \<open>The same server with a provider that rejects every call as not supporting grounding.\<close>

definition unsupported_env :: env where
  "unsupported_env =
     demo_env\<lparr>generate := (\<lambda>m k cfg. Threw (ErrorObj ''Search Grounding is not supported''))\<rparr>"

text \<open>A provider that rejects a call exactly when it carries a non-empty tool list.\<close>

definition picky_env :: env where
  "picky_env =
     demo_env\<lparr>generate := (\<lambda>m k cfg.
        if tools cfg = Some [GoogleSearch]
        then Threw (ErrorObj ''Search Grounding is not supported'')
        else Returned \<lparr>chunks = [Chunk ''ok''], ending = Ends\<rparr>)\<rparr>"

text \<open>A server without its credential.\<close>

definition unconfigured_env :: env where
  "unconfigured_env = demo_env\<lparr>api_key := None\<rparr>"

definition hello_body :: jsval where
  "hello_body = JObj [(''message'', JStr ''hi'')]"

definition internet_body :: jsval where
  "internet_body = JObj [(''message'', JStr ''hi''), (''aiModel'', JStr ''internet'')]"

definition no_grounding_body :: jsval where
  "no_grounding_body =
     JObj [(''message'', JStr ''hi''), (''aiModel'', JStr ''internet''),
           (''useGrounding'', JBool False)]"

definition pro_body :: jsval where
  "pro_body = JObj [(''message'', JStr ''hi''), (''aiModel'', JStr ''pro'')]"

definition two_images_body :: jsval where
  "two_images_body =
     JObj [(''message'', JStr ''hi''),
           (''images'', JArr [JStr ''data:image/png;base64,AAAA'', JStr ''BB''])]"

section \<open>Auxiliary facts\<close>

lemma well_formed_single: "well_formed [ev]"
  by (cases ev) simp_all

lemma well_formed_tokens_app:
  "\<forall>e\<in>set es. is_token e \<Longrightarrow> well_formed (es @ rest) = well_formed rest"
proof (induction es)
  case Nil
  then show ?case by simp
next
  case (Cons e es)
  then show ?case by (cases e) simp_all
qed

lemma relay_log_Nil: "relay_log []"
  by (simp add: relay_log_def)

lemma relay_log_Cons:
  "relay_log new \<Longrightarrow> relay_log ((Token t ts, True) # new)"
  by (auto simp: relay_log_def split: if_splits)

lemma relay_log_failed: "relay_log [(Token t ts, False)]"
  by (simp add: relay_log_def)

lemma relay_shape:
  "relay E cs fin s = (c, s') \<Longrightarrow> \<not> closed s \<Longrightarrow>
     \<exists>new. relay_log new
       \<and> s' = s\<lparr>attempts := attempts s @ new, queue := queue s @ map fst (filter snd new)\<rparr>
       \<and> (new \<noteq> [] \<and> \<not> snd (last new) \<longrightarrow> c = Returned ())"
proof (induction E cs fin s arbitrary: c s' rule: relay.induct)
  case (5 E chunkText rest fin s)
  show ?case
  proof (cases "chunkText = []")
    case True
    with 5 show ?thesis by simp
  next
    case nonempty: False
    show ?thesis
    proof (cases "accepts E (length (attempts s))")
      case True
      let ?ev = "Token chunkText (now E (length (attempts s)))"
      let ?s1 = "s\<lparr>attempts := attempts s @ [(?ev, True)], queue := queue s @ [?ev]\<rparr>"
      have enq: "enqueue E ?ev s = (True, ?s1)"
        using True "5.prems"(2) by (simp add: enqueue_def)
      have rel: "relay E rest fin ?s1 = (c, s')"
        using "5.prems"(1) nonempty enq by simp
      have "\<not> closed ?s1" using "5.prems"(2) by simp
      from "5.IH"(1)[OF nonempty enq[symmetric] refl rel this]
      obtain new where new: "relay_log new"
        "s' = ?s1\<lparr>attempts := attempts ?s1 @ new, queue := queue ?s1 @ map fst (filter snd new)\<rparr>"
        "new \<noteq> [] \<and> \<not> snd (last new) \<longrightarrow> c = Returned ()"
        by blast
      have "relay_log ((?ev, True) # new)" using new(1) by (rule relay_log_Cons)
      moreover have "s' = s\<lparr>attempts := attempts s @ ((?ev, True) # new),
          queue := queue s @ map fst (filter snd ((?ev, True) # new))\<rparr>"
        using new(2) by simp
      moreover have "((?ev, True) # new) \<noteq> [] \<and> \<not> snd (last ((?ev, True) # new)) \<longrightarrow> c = Returned ()"
        using new(3) by auto
      ultimately show ?thesis by blast
    next
      case False
      let ?ev = "Token chunkText (now E (length (attempts s)))"
      have "enqueue E ?ev s = (False, s\<lparr>attempts := attempts s @ [(?ev, False)]\<rparr>)"
        using False by (simp add: enqueue_def)
      then have "c = Returned ()" "s' = s\<lparr>attempts := attempts s @ [(?ev, False)]\<rparr>"
        using "5.prems"(1) nonempty by simp_all
      then show ?thesis
        using relay_log_failed[of chunkText "now E (length (attempts s))"]
        by (intro exI[of _ "[(?ev, False)]"]) simp
    qed
  qed
qed (auto simp: relay_log_Nil intro!: exI[of _ "[]"])


lemma send_done_attempts:
  "\<not> closed s \<Longrightarrow>
     attempts (send_done E s) = attempts s @ [(Done, accepts E (length (attempts s)))]"
  by (simp add: send_done_def enqueue_def)

lemma send_done_queue:
  "\<not> closed s \<Longrightarrow>
     queue (send_done E s) = queue s @ (if accepts E (length (attempts s)) then [Done] else [])"
  by (simp add: send_done_def enqueue_def)

lemma send_done_calls: "calls (send_done E s) = calls s"
  by (simp add: send_done_def enqueue_def)

lemma send_error_attempts:
  "\<not> closed s \<Longrightarrow>
     attempts (send_error E e s) =
       attempts s @ [(Error (streaming_error_message e), accepts E (length (attempts s)))]"
  by (simp add: send_error_def enqueue_def)

lemma send_error_queue:
  "\<not> closed s \<Longrightarrow>
     queue (send_error E e s) =
       queue s @ (if accepts E (length (attempts s)) then [Error (streaming_error_message e)] else [])"
  by (simp add: send_error_def enqueue_def)

lemma send_error_calls: "calls (send_error E e s) = calls s"
  by (simp add: send_error_def enqueue_def)

lemma call_provider_state:
  "call_provider E m cfg s = (r, s1) \<Longrightarrow> s1 = s\<lparr>calls := calls s @ [(m, cfg)]\<rparr>"
  by (auto simp: call_provider_def)

lemma fallback_state:
  "generateStreamWithFallback E m g cfg s = (r, s1) \<Longrightarrow>
     s1 = s\<lparr>calls := calls s @ [(m, cfg)]\<rparr> \<or>
     s1 = s\<lparr>calls := calls s @ [(m, cfg), (m, cfg\<lparr>tools := None\<rparr>)]\<rparr>"
  by (auto simp: generateStreamWithFallback_def call_provider_def
      split: completion.splits if_splits)

lemma fallback_frame:
  assumes "generateStreamWithFallback E m g cfg s = (r, s1)"
  shows "attempts s1 = attempts s" "queue s1 = queue s" "closed s1 = closed s"
  using fallback_state[OF assms] by auto

lemma start_try_shape:
  assumes "\<not> closed s" "start_try E m msg im ims g tls s = (c, s')"
  shows "\<exists>new fin. relay_log new
     \<and> attempts s' = attempts s @ new @ fin
     \<and> queue s' = queue s @ map fst (filter snd (new @ fin))
     \<and> (case c of
           Returned u \<Rightarrow> fin = [(Done, accepts E (length (attempts s) + length new))]
         | Threw e \<Rightarrow> fin = [] \<and> last_ok new \<and> \<not> closed s'
         | Hung \<Rightarrow> fin = [] \<and> last_ok new)"
proof (cases "content_parts E msg im ims")
  case (Inl e)
  with assms have "c = Threw e" "s' = s" by (simp_all add: start_try_def)
  then show ?thesis using assms(1)
    by (intro exI[of _ "[]"]) (simp add: relay_log_Nil last_ok_def)
next
  case (Inr ps)
  let ?cfg = "\<lparr>contents = [\<lparr>role = ''user'', parts = ps\<rparr>], tools = Some tls\<rparr>"
  obtain r s1 where gen: "generateStreamWithFallback E m g ?cfg s = (r, s1)"
    by (cases "generateStreamWithFallback E m g ?cfg s") blast
  note fr = fallback_frame[OF gen]
  show ?thesis
  proof (cases r)
    case (Returned result)
    obtain c2 s2 where rel: "relay E (chunks result) (ending result) s1 = (c2, s2)"
      by (cases "relay E (chunks result) (ending result) s1") blast
    have "\<not> closed s1" using fr assms(1) by simp
    from relay_shape[OF rel this] obtain new where new: "relay_log new"
      "s2 = s1\<lparr>attempts := attempts s1 @ new, queue := queue s1 @ map fst (filter snd new)\<rparr>"
      "new \<noteq> [] \<and> \<not> snd (last new) \<longrightarrow> c2 = Returned ()"
      by blast
    have ns2: "\<not> closed s2" using new(2) \<open>\<not> closed s1\<close> by simp
    show ?thesis
    proof (cases c2)
      case (Returned u)
      then have "c = Returned ()" "s' = send_done E s2"
        using assms(2) Inr gen \<open>r = Returned result\<close> rel by (simp_all add: start_try_def)
      then show ?thesis using new(1,2) fr ns2
        by (intro exI[of _ new] exI[of _ "[(Done, accepts E (length (attempts s) + length new))]"])
           (simp add: send_done_attempts send_done_queue)
    next
      case (Threw e)
      then have "c = Threw e" "s' = s2"
        using assms(2) Inr gen \<open>r = Returned result\<close> rel by (simp_all add: start_try_def)
      then show ?thesis using new fr ns2 Threw
        by (intro exI[of _ new] exI[of _ "[]"]) (auto simp: last_ok_def)
    next
      case Hung
      then have "c = Hung" "s' = s2"
        using assms(2) Inr gen \<open>r = Returned result\<close> rel by (simp_all add: start_try_def)
      then show ?thesis using new fr ns2 Hung
        by (intro exI[of _ new] exI[of _ "[]"]) (auto simp: last_ok_def)
    qed
  next
    case (Threw e)
    then have "c = Threw e" "s' = s1"
      using assms(2) Inr gen by (simp_all add: start_try_def)
    then show ?thesis using fr assms(1)
      by (intro exI[of _ "[]"]) (simp add: relay_log_Nil last_ok_def)
  next
    case Hung
    then have "c = Hung" "s' = s1"
      using assms(2) Inr gen by (simp_all add: start_try_def)
    then show ?thesis using fr
      by (intro exI[of _ "[]"]) (simp add: relay_log_Nil last_ok_def)
  qed
qed

lemma start_shape:
  assumes "\<not> closed s" "start E m msg im ims g tls s = (c, s')"
  shows "\<exists>new fin. relay_log new
     \<and> attempts s' = attempts s @ new @ fin
     \<and> queue s' = queue s @ map fst (filter snd (new @ fin))
     \<and> (fin = [] \<and> last_ok new \<and> c = Hung
          \<or> fin = [(Done, accepts E (length (attempts s) + length new))] \<and> c = Returned ()
          \<or> (\<exists>e. fin = [(Error (streaming_error_message e),
                            accepts E (length (attempts s) + length new))])
             \<and> last_ok new \<and> c = Returned ())"
proof -
  obtain c1 s1 where tr: "start_try E m msg im ims g tls s = (c1, s1)"
    by (cases "start_try E m msg im ims g tls s") blast
  from start_try_shape[OF assms(1) tr] obtain new fin where sh: "relay_log new"
    "attempts s1 = attempts s @ new @ fin"
    "queue s1 = queue s @ map fst (filter snd (new @ fin))"
    "case c1 of
           Returned u \<Rightarrow> fin = [(Done, accepts E (length (attempts s) + length new))]
         | Threw e \<Rightarrow> fin = [] \<and> last_ok new \<and> \<not> closed s1
         | Hung \<Rightarrow> fin = [] \<and> last_ok new"
    by blast
  show ?thesis
  proof (cases c1)
    case (Returned u)
    then have "c = Returned ()" "s' = s1" using assms(2) tr by (simp_all add: start_def)
    then show ?thesis using sh Returned by (intro exI[of _ new] exI[of _ fin]) simp
  next
    case (Threw e)
    then have cs: "c = Returned ()" "s' = send_error E e s1"
      using assms(2) tr by (simp_all add: start_def)
    have nc: "\<not> closed s1" "fin = []" "last_ok new" using sh(4) Threw by simp_all
    show ?thesis using sh(1-3) cs nc
      by (intro exI[of _ new]
            exI[of _ "[(Error (streaming_error_message e),
                        accepts E (length (attempts s) + length new))]"])
         (auto simp: send_error_attempts send_error_queue)
  next
    case Hung
    then have "c = Hung" "s' = s1" using assms(2) tr by (simp_all add: start_def)
    then show ?thesis using sh Hung by (intro exI[of _ new] exI[of _ fin]) simp
  qed
qed


lemma trim_Nil: "trim [] = []"
  by (simp add: trim_def)

lemma check_api_key_configured: "check_api_key E = None \<longleftrightarrow> configured E"
  by (auto simp: check_api_key_def configured_def trim_Nil split: option.splits)

lemma check_api_key_json: "check_api_key E = Some r \<Longrightarrow> run r = idle"
  by (auto simp: check_api_key_def json_def split: option.splits if_splits)

lemma check_message_valid:
  "check_message v = Inr text \<longleftrightarrow> v = JStr text \<and> text \<noteq> [] \<and> length text \<le> 100000"
  by (cases v) (auto simp: check_message_def)

lemma check_message_json: "check_message v = Inl r \<Longrightarrow> run r = idle"
  by (cases v) (auto simp: check_message_def json_def split: if_splits)

lemma POST_stream:
  assumes "configured E" "body \<noteq> JNull" "body \<noteq> JUndefined"
    "get_prop body ''message'' = JStr text" "text \<noteq> []" "length text \<le> 100000"
  shows "POST E (Some body) = open_stream E body text"
proof -
  have "check_api_key E = None" using assms(1) by (simp add: check_api_key_configured)
  moreover have "check_message (get_prop body ''message'') = Inr text"
    using assms(4-6) by (simp add: check_message_valid)
  ultimately show ?thesis using assms(2,3) by (simp add: POST_def POST_try_def)
qed

lemma POST_cases:
  "run (POST E parsed) = idle \<or>
   (\<exists>body text. parsed = Some body \<and> configured E \<and> body \<noteq> JNull \<and> body \<noteq> JUndefined
      \<and> get_prop body ''message'' = JStr text \<and> text \<noteq> [] \<and> length text \<le> 100000
      \<and> POST E parsed = open_stream E body text)"
proof (cases "check_api_key E")
  case (Some r)
  then show ?thesis using check_api_key_json[OF Some] by (simp add: POST_def POST_try_def)
next
  case None
  show ?thesis
  proof (cases parsed)
    case nobody: None
    then show ?thesis using None by (simp add: POST_def POST_try_def json_def)
  next
    case (Some body)
    show ?thesis
    proof (cases "body = JNull \<or> body = JUndefined")
      case True
      then show ?thesis using None Some
        by (auto simp: POST_def POST_try_def outer_catch_def json_def split: prod.splits)
    next
      case False
      show ?thesis
      proof (cases "check_message (get_prop body ''message'')")
        case (Inl r)
        then show ?thesis using None Some False check_message_json[OF Inl]
          by (simp add: POST_def POST_try_def)
      next
        case (Inr msg)
        then have v: "get_prop body ''message'' = JStr msg" "msg \<noteq> []" "length msg \<le> 100000"
          by (simp_all add: check_message_valid)
        have c: "configured E" using None by (simp add: check_api_key_configured)
        have "POST E (Some body) = open_stream E body msg"
          using POST_stream[OF c _ _ v] False by simp
        then show ?thesis using Some False v c by simp
      qed
    qed
  qed
qed

lemma open_stream_run:
  "run (open_stream E body text) = idle \<or>
   run (open_stream E body text) =
     snd (start E (modelName_of (aiModel_of body)) text (get_prop body ''image'')
            (get_prop body ''images'') (useGrounding_of body)
            (tools_of (aiModel_of body) (useGrounding_of body)) idle)"
  by (simp add: open_stream_def Let_def json_def split: option.splits)

lemma relay_calls: "calls (snd (relay E cs fin s)) = calls s"
  by (induction E cs fin s rule: relay.induct) (auto simp: enqueue_def split: prod.splits)

lemma start_try_calls:
  "calls (snd (start_try E m msg im ims g tls s)) =
     (case content_parts E msg im ims of
        Inl e \<Rightarrow> calls s
      | Inr ps \<Rightarrow>
          calls (snd (generateStreamWithFallback E m g
            \<lparr>contents = [\<lparr>role = ''user'', parts = ps\<rparr>], tools = Some tls\<rparr> s)))"
proof (cases "content_parts E msg im ims")
  case (Inl e)
  then show ?thesis by (simp add: start_try_def)
next
  case (Inr ps)
  let ?cfg = "\<lparr>contents = [\<lparr>role = ''user'', parts = ps\<rparr>], tools = Some tls\<rparr>"
  obtain r s1 where gen: "generateStreamWithFallback E m g ?cfg s = (r, s1)"
    by (cases "generateStreamWithFallback E m g ?cfg s") blast
  show ?thesis
  proof (cases r)
    case (Returned result)
    obtain c2 s2 where rel: "relay E (chunks result) (ending result) s1 = (c2, s2)"
      by (cases "relay E (chunks result) (ending result) s1") blast
    have "calls s2 = calls s1" using relay_calls[of E "chunks result" "ending result" s1] rel by simp
    then show ?thesis using Inr gen Returned rel
      by (cases c2) (simp_all add: start_try_def send_done_calls)
  qed (use Inr gen in \<open>simp_all add: start_try_def\<close>)
qed

lemma start_calls:
  "calls (snd (start E m msg im ims g tls s)) = calls (snd (start_try E m msg im ims g tls s))"
  by (cases "start_try E m msg im ims g tls s" rule: prod.exhaust)
     (auto simp: start_def send_error_calls split: completion.splits)

lemma start_calls_cases:
  "calls (snd (start E m msg im ims g tls s)) = calls s \<or>
   (\<exists>ps. content_parts E msg im ims = Inr ps \<and>
      (calls (snd (start E m msg im ims g tls s)) =
         calls s @ [(m, \<lparr>contents = [\<lparr>role = ''user'', parts = ps\<rparr>], tools = Some tls\<rparr>)] \<or>
       calls (snd (start E m msg im ims g tls s)) =
         calls s @ [(m, \<lparr>contents = [\<lparr>role = ''user'', parts = ps\<rparr>], tools = Some tls\<rparr>),
                    (m, \<lparr>contents = [\<lparr>role = ''user'', parts = ps\<rparr>], tools = None\<rparr>)]))"
proof (cases "content_parts E msg im ims")
  case (Inl e)
  then show ?thesis by (simp add: start_calls start_try_calls)
next
  case (Inr ps)
  let ?cfg = "\<lparr>contents = [\<lparr>role = ''user'', parts = ps\<rparr>], tools = Some tls\<rparr>"
  obtain r s1 where gen: "generateStreamWithFallback E m g ?cfg s = (r, s1)"
    by (cases "generateStreamWithFallback E m g ?cfg s") blast
  from fallback_state[OF gen] show ?thesis
    using Inr gen by (auto simp: start_calls start_try_calls)
qed

lemma POST_calls_cases:
  "calls (run (POST E parsed)) = [] \<or>
   (\<exists>body msg ps. parsed = Some body \<and> get_prop body ''message'' = JStr msg
      \<and> content_parts E msg (get_prop body ''image'') (get_prop body ''images'') = Inr ps
      \<and> (calls (run (POST E parsed)) =
            [(modelName_of (aiModel_of body),
              \<lparr>contents = [\<lparr>role = ''user'', parts = ps\<rparr>],
               tools = Some (tools_of (aiModel_of body) (useGrounding_of body))\<rparr>)] \<or>
          calls (run (POST E parsed)) =
            [(modelName_of (aiModel_of body),
              \<lparr>contents = [\<lparr>role = ''user'', parts = ps\<rparr>],
               tools = Some (tools_of (aiModel_of body) (useGrounding_of body))\<rparr>),
             (modelName_of (aiModel_of body),
              \<lparr>contents = [\<lparr>role = ''user'', parts = ps\<rparr>], tools = None\<rparr>)]))"
proof -
  consider "run (POST E parsed) = idle"
    | body msg where "parsed = Some body" "get_prop body ''message'' = JStr msg"
        "POST E parsed = open_stream E body msg"
    using POST_cases[of E parsed] by blast
  then show ?thesis
  proof cases
    case 1
    then show ?thesis by (simp add: idle_def)
  next
    case 2
    from open_stream_run[of E body msg] show ?thesis
    proof
      assume "run (open_stream E body msg) = idle"
      then show ?thesis using 2 by (simp add: idle_def)
    next
      assume r: "run (open_stream E body msg) =
        snd (start E (modelName_of (aiModel_of body)) msg (get_prop body ''image'')
            (get_prop body ''images'') (useGrounding_of body)
            (tools_of (aiModel_of body) (useGrounding_of body)) idle)"
      have "calls idle = []" by (simp add: idle_def)
      with start_calls_cases[of E "modelName_of (aiModel_of body)" msg "get_prop body ''image''"
          "get_prop body ''images''" "useGrounding_of body"
          "tools_of (aiModel_of body) (useGrounding_of body)" idle]
      show ?thesis using 2 r by auto
    qed
  qed
qed

lemmas handler_defs =
  POST_def POST_try_def check_api_key_def check_message_def open_stream_def outer_catch_def
  classify_def status_hint_def json_def reply_def idle_def sse_headers_def
  aiModel_of_def useGrounding_of_def with_default_def modelName_of_def tools_of_def
  googleSearchTool_def start_def start_try_def content_parts_def base64ToBuffer_def
  strip_data_uri_def starts_with_def is_word_def generateStreamWithFallback_def
  call_provider_def grounding_unsupported_def enqueue_def send_done_def send_error_def
  trim_def is_space_def Let_def

lemmas demo_defs =
  demo_env_def gone_env_def unsupported_env_def picky_env_def unconfigured_env_def
  hello_body_def internet_body_def no_grounding_body_def pro_body_def two_images_body_def

lemma relay_open:
  assumes "\<forall>k. accepts E k"
  shows "\<not> closed s \<Longrightarrow>
     relay E (map Chunk texts) Ends s =
       (Returned (),
        s\<lparr>attempts := attempts s @ map (\<lambda>e. (e, True)) (tokens_from E (length (attempts s)) texts),
          queue := queue s @ tokens_from E (length (attempts s)) texts\<rparr>)"
proof (induction texts arbitrary: s)
  case Nil
  then show ?case by (simp add: tokens_from_def)
next
  case (Cons t texts)
  show ?case
  proof (cases "t = []")
    case True
    then show ?thesis using Cons by (simp add: tokens_from_def)
  next
    case False
    let ?ev = "Token t (now E (length (attempts s)))"
    let ?s1 = "s\<lparr>attempts := attempts s @ [(?ev, True)], queue := queue s @ [?ev]\<rparr>"
    have enq: "enqueue E ?ev s = (True, ?s1)"
      using assms Cons.prems by (simp add: enqueue_def)
    have "\<not> closed ?s1" using Cons.prems by simp
    from Cons.IH[OF this] show ?thesis
      using False enq by (simp add: tokens_from_def)
  qed
qed

lemma relay_log_tokens: "relay_log new \<Longrightarrow> \<forall>e\<in>set (map fst (filter snd new)). is_token e"
  by (auto simp: relay_log_def)

lemma start_well_formed:
  assumes "\<not> closed s" "queue s = []"
  shows "well_formed (queue (snd (start E m msg im ims g tls s)))"
proof -
  obtain c s' where st: "start E m msg im ims g tls s = (c, s')"
    by (cases "start E m msg im ims g tls s") blast
  from start_shape[OF assms(1) st] obtain new fin where sh: "relay_log new"
    "queue s' = queue s @ map fst (filter snd (new @ fin))"
    "fin = [] \<or> (\<exists>b. fin = [(Done, b)]) \<or> (\<exists>e b. fin = [(Error e, b)])"
    by blast
  have "well_formed (map fst (filter snd fin))"
    using sh(3) by auto
  then have "well_formed (map fst (filter snd new) @ map fst (filter snd fin))"
    using well_formed_tokens_app[OF relay_log_tokens[OF sh(1)]] by simp
  then show ?thesis using sh(2) assms(2) st by simp
qed

lemma POST_well_formed: "well_formed (queue (run (POST E parsed)))"
proof -
  consider "run (POST E parsed) = idle"
    | body msg where "POST E parsed = open_stream E body msg"
    using POST_cases[of E parsed] by blast
  then show ?thesis
  proof cases
    case 1
    then show ?thesis by (simp add: idle_def)
  next
    case 2
    have i: "\<not> closed idle" "queue idle = []" by (simp_all add: idle_def)
    from open_stream_run[of E body msg] show ?thesis
      using 2 start_well_formed[OF i] by (auto simp: idle_def)
  qed
qed

lemma start_text_only_open:
  assumes "content_parts E msg im ims = Inr ps"
    and "fst (generateStreamWithFallback E m g
           \<lparr>contents = [\<lparr>role = ''user'', parts = ps\<rparr>], tools = Some tls\<rparr> idle) =
         Returned \<lparr>chunks = map Chunk texts, ending = Ends\<rparr>"
    and "\<forall>k. accepts E k"
  shows "queue (snd (start E m msg im ims g tls idle)) = tokens_from E 0 texts @ [Done]"
proof -
  let ?cfg = "\<lparr>contents = [\<lparr>role = ''user'', parts = ps\<rparr>], tools = Some tls\<rparr>"
  obtain r s1 where gen: "generateStreamWithFallback E m g ?cfg idle = (r, s1)"
    by (cases "generateStreamWithFallback E m g ?cfg idle") blast
  then have r: "r = Returned \<lparr>chunks = map Chunk texts, ending = Ends\<rparr>" using assms(2) by simp
  note fr = fallback_frame[OF gen]
  have s1: "\<not> closed s1" "attempts s1 = []" "queue s1 = []" using fr by (simp_all add: idle_def)
  let ?s2 = "s1\<lparr>attempts := attempts s1 @ map (\<lambda>e. (e, True)) (tokens_from E (length (attempts s1)) texts),
          queue := queue s1 @ tokens_from E (length (attempts s1)) texts\<rparr>"
  have rel: "relay E (map Chunk texts) Ends s1 = (Returned (), ?s2)"
    by (rule relay_open[OF assms(3) s1(1)])
  have "\<not> closed ?s2" using s1 by simp
  then have "queue (send_done E ?s2) = queue ?s2 @ [Done]"
    using assms(3) by (simp add: send_done_queue)
  then show ?thesis using assms(1) gen r rel s1
    by (simp add: start_def start_try_def)
qed

lemma POST_run:
  assumes "reaches_start E body msg"
  shows "POST E (Some body) =
     \<lparr>response = StreamResponse sse_headers,
      run = snd (start E (modelName_of (aiModel_of body)) msg (get_prop body ''image'')
                  (get_prop body ''images'') (useGrounding_of body)
                  (tools_of (aiModel_of body) (useGrounding_of body)) idle)\<rparr>"
proof -
  have "POST E (Some body) = open_stream E body msg"
    using assms POST_stream unfolding reaches_start_def by blast
  then show ?thesis using assms by (simp add: reaches_start_def open_stream_def Let_def)
qed

lemma fallback_retry:
  assumes "generate E m (length (calls s)) cfg = Threw e" "truthy g" "grounding_unsupported e"
  shows "generateStreamWithFallback E m g cfg s =
     (generate E m (Suc (length (calls s))) (cfg\<lparr>tools := None\<rparr>),
      s\<lparr>calls := calls s @ [(m, cfg), (m, cfg\<lparr>tools := None\<rparr>)]\<rparr>)"
  using assms by (simp add: generateStreamWithFallback_def call_provider_def)

lemma fallback_no_retry:
  assumes "generate E m (length (calls s)) cfg = Threw e" "\<not> (truthy g \<and> grounding_unsupported e)"
  shows "generateStreamWithFallback E m g cfg s = (Threw e, s\<lparr>calls := calls s @ [(m, cfg)]\<rparr>)"
  using assms by (auto simp: generateStreamWithFallback_def call_provider_def)

lemma start_provider_error:
  assumes "content_parts E msg im ims = Inr ps"
    and "generateStreamWithFallback E m g
           \<lparr>contents = [\<lparr>role = ''user'', parts = ps\<rparr>], tools = Some tls\<rparr> s = (Threw e, s1)"
  shows "start E m msg im ims g tls s = (Returned (), send_error E e s1)"
  using assms by (simp add: start_def start_try_def)

lemma POST_calls_bound: "length (calls (run (POST E parsed))) \<le> 2"
  using POST_calls_cases[of E parsed] by auto

lemma POST_tool_lists:
  "tool_lists (run (POST E (Some body))) \<in>
     {[], [Some (tools_of (aiModel_of body) (useGrounding_of body))],
      [Some (tools_of (aiModel_of body) (useGrounding_of body)), None]}"
  using POST_calls_cases[of E "Some body"] by (auto simp: tool_lists_def)

lemma open_stream_cases:
  "(\<exists>b. open_stream E body msg = json b 500) \<or>
   open_stream E body msg =
     \<lparr>response = StreamResponse sse_headers,
      run = snd (start E (modelName_of (aiModel_of body)) msg (get_prop body ''image'')
                  (get_prop body ''images'') (useGrounding_of body)
                  (tools_of (aiModel_of body) (useGrounding_of body)) idle)\<rparr>"
  by (cases "model_init E (modelName_of (aiModel_of body))") (auto simp: open_stream_def Let_def)

lemma start_never_throws: "fst (start E m msg im ims g tls s) \<noteq> Threw e"
  by (cases "start_try E m msg im ims g tls s" rule: prod.exhaust)
     (auto simp: start_def split: completion.splits)

lemma failed_token_is_last:
  assumes "relay_log new" "k < length (new @ fin)" "(new @ fin) ! k = (Token t ts, False)"
    and "\<forall>x\<in>set fin. \<not> is_token (fst x)"
  shows "new \<noteq> [] \<and> Suc k = length new \<and> \<not> last_ok new"
proof -
  have kn: "k < length new"
  proof (rule ccontr)
    assume "\<not> k < length new"
    then have "(new @ fin) ! k = fin ! (k - length new)" "k - length new < length fin"
      using assms(2) by (simp_all add: nth_append)
    then have "(Token t ts, False) \<in> set fin" using assms(3) by (metis nth_mem)
    then show False using assms(4) by force
  qed
  then have nk: "new ! k = (Token t ts, False)" using assms(3) by (simp add: nth_append)
  have "\<not> k < length new - 1"
  proof
    assume "k < length new - 1"
    then have "butlast new ! k = new ! k" "k < length (butlast new)"
      by (simp_all add: nth_butlast)
    then have "new ! k \<in> set (butlast new)" by (metis nth_mem)
    then show False using assms(1) nk by (auto simp: relay_log_def)
  qed
  then have sk: "Suc k = length new" using kn by simp
  have ne: "new \<noteq> []" using kn by auto
  have "length new - 1 = k" using sk by arith
  then have "last new = new ! k" using last_conv_nth[OF ne] by simp
  then show ?thesis using ne sk nk by (auto simp: last_ok_def)
qed

lemma relay_log_butlast:
  assumes "relay_log new" "new \<noteq> []" "\<not> last_ok new"
  shows "filter snd new = butlast new"
proof -
  have "new = butlast new @ [last new]" using assms(2) by simp
  then have "filter snd new = filter snd (butlast new) @ filter snd [last new]"
    by (metis filter_append)
  moreover have "filter snd (butlast new) = butlast new"
    using assms(1) by (auto simp: relay_log_def)
  moreover have "filter snd [last new] = []" using assms(2,3) by (simp add: last_ok_def)
  ultimately show ?thesis by simp
qed

lemma start_failed_token:
  assumes "\<not> closed s" "attempts s = []" "queue s = []"
    and "start E m msg im ims g tls s = (c, s')"
    and "k < length (attempts s')" "attempts s' ! k = (Token t ts, False)"
  shows "drop (Suc k) (attempts s') = [(Done, accepts E (Suc k))]
     \<and> (\<forall>x\<in>set (take k (attempts s')). is_token (fst x) \<and> snd x)
     \<and> queue s' = map fst (take k (attempts s')) @ (if accepts E (Suc k) then [Done] else [])"
proof -
  from start_shape[OF assms(1,4)] obtain new fin where sh: "relay_log new"
    "attempts s' = attempts s @ new @ fin"
    "queue s' = queue s @ map fst (filter snd (new @ fin))"
    "fin = [] \<and> last_ok new \<and> c = Hung
       \<or> fin = [(Done, accepts E (length (attempts s) + length new))] \<and> c = Returned ()
       \<or> (\<exists>e. fin = [(Error (streaming_error_message e),
                         accepts E (length (attempts s) + length new))])
          \<and> last_ok new \<and> c = Returned ()"
    by blast
  have at: "attempts s' = new @ fin" using sh(2) assms(2) by simp
  have nt: "\<forall>x\<in>set fin. \<not> is_token (fst x)" using sh(4) by auto
  from failed_token_is_last[OF sh(1) _ _ nt] assms(5,6) at
  have l: "new \<noteq> []" "Suc k = length new" "\<not> last_ok new" by simp_all
  then have fin: "fin = [(Done, accepts E (Suc k))]" using sh(4) assms(2) by auto
  have "k = length new - 1" using l(2) by arith
  then have tk: "take k (attempts s') = butlast new"
    using at by (simp add: butlast_conv_take)
  have "drop (Suc k) (attempts s') = [(Done, accepts E (Suc k))]"
    using at l(2) fin by simp
  moreover have "\<forall>x\<in>set (take k (attempts s')). is_token (fst x) \<and> snd x"
    using tk sh(1) by (auto simp: relay_log_def dest: in_set_butlastD)
  moreover have "queue s' = map fst (take k (attempts s')) @ (if accepts E (Suc k) then [Done] else [])"
    using sh(3) assms(3) relay_log_butlast[OF sh(1) l(1) l(3)] tk fin by simp
  ultimately show ?thesis by blast
qed

lemma idle_simps: "\<not> closed idle" "attempts idle = []" "queue idle = []" "calls idle = []"
  by (simp_all add: idle_def)

lemma POST_failed_token:
  assumes "k < length (attempts (run (POST E parsed)))"
    and "attempts (run (POST E parsed)) ! k = (Token t ts, False)"
  shows "drop (Suc k) (attempts (run (POST E parsed))) = [(Done, accepts E (Suc k))]
     \<and> (\<forall>x\<in>set (take k (attempts (run (POST E parsed)))). is_token (fst x) \<and> snd x)
     \<and> queue (run (POST E parsed)) =
         map fst (take k (attempts (run (POST E parsed)))) @ (if accepts E (Suc k) then [Done] else [])
     \<and> response (POST E parsed) = StreamResponse sse_headers"
proof -
  have ni: "run (POST E parsed) \<noteq> idle" using assms(1) by (auto simp: idle_def)
  then obtain body msg where p: "POST E parsed = open_stream E body msg"
    using POST_cases[of E parsed] by blast
  let ?st = "start E (modelName_of (aiModel_of body)) msg (get_prop body ''image'')
                  (get_prop body ''images'') (useGrounding_of body)
                  (tools_of (aiModel_of body) (useGrounding_of body)) idle"
  have o: "open_stream E body msg = \<lparr>response = StreamResponse sse_headers, run = snd ?st\<rparr>"
    using open_stream_cases[of E body msg] ni p by (auto simp: json_def)
  obtain c s' where st: "?st = (c, s')" by (cases ?st) blast
  have r: "run (POST E parsed) = s'" "response (POST E parsed) = StreamResponse sse_headers"
    using p o st by simp_all
  from start_failed_token[OF idle_simps(1-3) st, of k t ts] assms r
  show ?thesis by simp
qed

lemma unsupported_message:
  "grounding_unsupported (ErrorObj ''Search Grounding is not supported'')"
  by (simp add: grounding_unsupported_def starts_with_def)

lemma starts_with_iff: "starts_with s p \<longleftrightarrow> (\<exists>b. s = p @ b)"
proof
  assume "starts_with s p"
  then have "s = p @ drop (length p) s"
    by (metis append_take_drop_id starts_with_def)
  then show "\<exists>b. s = p @ b" ..
next
  assume "\<exists>b. s = p @ b"
  then show "starts_with s p" by (auto simp: starts_with_def)
qed

lemma js_includes_contains: "js_includes s p = contains s p"
proof (induction s)
  case Nil
  then show ?case by (auto simp: contains_def)
next
  case (Cons c cs)
  have "contains (c # cs) p \<longleftrightarrow> (\<exists>b. c # cs = p @ b) \<or> contains cs p"
  proof
    assume "contains (c # cs) p"
    then obtain a b where ab: "c # cs = a @ p @ b" by (auto simp: contains_def)
    show "(\<exists>b. c # cs = p @ b) \<or> contains cs p"
    proof (cases a)
      case Nil
      then show ?thesis using ab by auto
    next
      case (Cons x a')
      then have "cs = a' @ p @ b" using ab by simp
      then show ?thesis by (auto simp: contains_def)
    qed
  next
    assume "(\<exists>b. c # cs = p @ b) \<or> contains cs p"
    then show "contains (c # cs) p"
    proof
      assume "\<exists>b. c # cs = p @ b"
      then obtain b where "c # cs = [] @ p @ b" by auto
      then show ?thesis unfolding contains_def by blast
    next
      assume "contains cs p"
      then obtain a b where "cs = a @ p @ b" by (auto simp: contains_def)
      then have "c # cs = (c # a) @ p @ b" by simp
      then show ?thesis unfolding contains_def by blast
    qed
  qed
  then show ?case using Cons by (simp add: starts_with_iff)
qed

lemma classify_spec: "classify e = (spec_details e, spec_status e)"
  by (cases e) (simp_all add: classify_def spec_details_def spec_status_def js_includes_contains)

lemma outer_catch_spec:
  "outer_catch E e =
     json \<lparr>error = ''Er is een fout opgetreden bij het verwerken van je bericht'',
           hint = Some (status_hint (spec_status e)),
           debug = None,
           details = Some (spec_details e),
           timestamp = Some (now E 0)\<rparr> (spec_status e)"
  by (simp add: outer_catch_def classify_spec)

lemma trim_blank: "trim key = [] \<longleftrightarrow> blank key"
proof -
  have a: "dropWhile is_space (rev (dropWhile is_space key)) = [] \<longleftrightarrow>
      (\<forall>c\<in>set (dropWhile is_space key). is_space c)"
    by (simp add: dropWhile_eq_Nil_conv)
  have b: "(\<forall>c\<in>set (dropWhile is_space key). is_space c) \<longleftrightarrow> dropWhile is_space key = []"
  proof
    assume h: "\<forall>c\<in>set (dropWhile is_space key). is_space c"
    show "dropWhile is_space key = []"
    proof (rule ccontr)
      assume ne: "dropWhile is_space key \<noteq> []"
      then have "\<not> is_space (hd (dropWhile is_space key))" by (rule hd_dropWhile)
      moreover have "hd (dropWhile is_space key) \<in> set (dropWhile is_space key)"
        using ne by simp
      ultimately show False using h by blast
    qed
  next
    assume "dropWhile is_space key = []"
    then show "\<forall>c\<in>set (dropWhile is_space key). is_space c" by (auto dest: set_dropWhileD)
  qed
  show ?thesis using a b by (simp add: trim_def blank_def dropWhile_eq_Nil_conv)
qed

lemma not_configured:
  "\<not> configured E \<longleftrightarrow> api_key E = None \<or> (\<exists>key. api_key E = Some key \<and> blank key)"
  by (auto simp: configured_def trim_blank split: option.splits)

lemma POST_unconfigured:
  assumes "\<not> configured E"
  shows "POST E parsed = the (check_api_key E)"
proof -
  obtain r where "check_api_key E = Some r"
    using assms check_api_key_configured[of E] by (cases "check_api_key E") auto
  then show ?thesis by (simp add: POST_def POST_try_def)
qed

lemma check_api_key_replies:
  "check_api_key E = None \<or>
   check_api_key E = Some (json
     \<lparr>error = ''API configuratie ontbreekt. Check Environment Variables.'',
      hint = Some ''Voeg GEMINI_API_KEY toe aan je environment variables'',
      debug = Some ''Environment variable GEMINI_API_KEY is not set'',
      details = None, timestamp = None\<rparr> 500) \<or>
   check_api_key E = Some (json
     \<lparr>error = ''API key is leeg of ongeldig'',
      hint = Some ''Controleer of GEMINI_API_KEY correct is ingesteld'',
      debug = Some ''GEMINI_API_KEY exists but is empty or not a string'',
      details = None, timestamp = None\<rparr> 500)"
  by (cases "api_key E") (simp_all add: check_api_key_def reply_def)



lemma imageParts_strings: "imageParts E (map JStr xs) = Inr (map (spec_image_part E) xs)"
  by (induction xs) (simp_all add: spec_image_part_def base64ToBuffer_def)

lemma content_parts_typed:
  "content_parts E msg (opt_string img) (opt_strings imgs) = Inr (spec_parts E msg img imgs)"
proof (cases imgs)
  case None
  then show ?thesis
    by (cases img)
       (auto simp: content_parts_def opt_string_def opt_strings_def spec_parts_def
          spec_image_part_def base64ToBuffer_def split: list.splits)
next
  case (Some xs)
  show ?thesis
  proof (cases xs)
    case Nil
    then show ?thesis using Some
      by (cases img)
         (auto simp: content_parts_def opt_string_def opt_strings_def spec_parts_def
            spec_image_part_def base64ToBuffer_def split: list.splits)
  next
    case (Cons y ys)
    have "imageParts E (map JStr (y # ys)) = Inr (map (spec_image_part E) (y # ys))"
      by (rule imageParts_strings)
    then show ?thesis using Some Cons
      by (simp add: content_parts_def opt_strings_def spec_parts_def)
  qed
qed

lemma not_word_semicolon: "\<not> is_word CHR '';''"
  by (simp add: is_word_def)

lemma strip_data_uri_prefix:
  assumes "w \<noteq> []" "\<forall>c\<in>set w. is_word c"
  shows "strip_data_uri (''data:image/'' @ w @ '';base64,'' @ d) = d"
proof -
  have t: "takeWhile is_word (w @ '';base64,'' @ d) = w"
    using assms(2) not_word_semicolon by (simp add: takeWhile_append2)
  have dw: "dropWhile is_word (w @ '';base64,'' @ d) = '';base64,'' @ d"
    using assms(2) not_word_semicolon by (simp add: dropWhile_append2)
  have sw: "starts_with (''data:image/'' @ w @ '';base64,'' @ d) ''data:image/''"
    by (simp add: starts_with_def)
  have dr: "drop 11 (''data:image/'' @ w @ '';base64,'' @ d) = w @ '';base64,'' @ d"
    by simp
  have sb: "starts_with ('';base64,'' @ d) '';base64,''" by (simp add: starts_with_def)
  have d8: "drop 8 ('';base64,'' @ d) = d" by simp
  show ?thesis
    unfolding strip_data_uri_def Let_def using sw dr t dw sb d8 assms(1) by simp
qed

lemma strip_data_uri_other: "\<not> starts_with s ''data:image/'' \<Longrightarrow> strip_data_uri s = s"
  by (simp add: strip_data_uri_def)

lemma POST_contents:
  assumes "reaches_start E body msg"
    and "content_parts E msg (get_prop body ''image'') (get_prop body ''images'') = Inr ps"
  shows "map (\<lambda>c. contents (snd c)) (calls (run (POST E (Some body)))) \<in>
     {[[\<lparr>role = ''user'', parts = ps\<rparr>]],
      [[\<lparr>role = ''user'', parts = ps\<rparr>], [\<lparr>role = ''user'', parts = ps\<rparr>]]}"
proof -
  let ?m = "modelName_of (aiModel_of body)"
  let ?tls = "tools_of (aiModel_of body) (useGrounding_of body)"
  let ?cfg = "\<lparr>contents = [\<lparr>role = ''user'', parts = ps\<rparr>], tools = Some ?tls\<rparr>"
  have "calls (run (POST E (Some body))) =
      calls (snd (generateStreamWithFallback E ?m (useGrounding_of body) ?cfg idle))"
    using assms by (simp add: POST_run start_calls start_try_calls)
  moreover obtain r s1 where g: "generateStreamWithFallback E ?m (useGrounding_of body) ?cfg idle = (r, s1)"
    by (cases "generateStreamWithFallback E ?m (useGrounding_of body) ?cfg idle") blast
  ultimately show ?thesis using fallback_state[OF g] by (auto simp: idle_def)
qed

lemma tools_of_expected:
  "tools_of (aiModel_of body) (useGrounding_of body) = expected_tools body"
  by (auto simp: tools_of_def expected_tools_def flag_on_def aiModel_of_def useGrounding_of_def
      with_default_def googleSearchTool_def)

lemma POST_tool_lists_started:
  assumes "reaches_start E body msg"
    and "content_parts E msg (get_prop body ''image'') (get_prop body ''images'') = Inr ps"
  shows "tool_lists (run (POST E (Some body))) \<in>
     {[Some (expected_tools body)], [Some (expected_tools body), None]}"
proof -
  let ?m = "modelName_of (aiModel_of body)"
  let ?tls = "tools_of (aiModel_of body) (useGrounding_of body)"
  let ?cfg = "\<lparr>contents = [\<lparr>role = ''user'', parts = ps\<rparr>], tools = Some ?tls\<rparr>"
  have "calls (run (POST E (Some body))) =
      calls (snd (generateStreamWithFallback E ?m (useGrounding_of body) ?cfg idle))"
    using assms by (simp add: POST_run start_calls start_try_calls)
  moreover obtain r s1 where g: "generateStreamWithFallback E ?m (useGrounding_of body) ?cfg idle = (r, s1)"
    by (cases "generateStreamWithFallback E ?m (useGrounding_of body) ?cfg idle") blast
  ultimately show ?thesis
    using fallback_state[OF g] by (auto simp: idle_def tool_lists_def tools_of_expected)
qed

lemma images_length_conversion_throws:
  "run (POST demo_env
      (Some (JObj [(''message'', JStr ''hi''),
                   (''images'', JObj [(''length'',
                      JObj [(''valueOf'', JNum 1), (''toString'', JNum 1)])])]))) =
     \<lparr>calls = [], attempts = [(Error ''TypeError'', True)], queue = [Error ''TypeError''],
      closed = True\<rparr>"
  by (simp add: handler_defs demo_defs)

lemma flag_on_useGrounding:
  "truthy (useGrounding_of body) = flag_on (get_prop body ''useGrounding'')"
  by (simp add: useGrounding_of_def with_default_def flag_on_def)

section \<open>The claims\<close>

subsection \<open>C1: model selection\<close>

text \<open>
  C1, as the code has it. The model name is chosen from \<^verbatim>\<open>aiModel\<close> alone: \<^verbatim>\<open>"pro"\<close> gives
  the premium model, \<^verbatim>\<open>"smart"\<close> and an absent \<^verbatim>\<open>aiModel\<close> give the standard model, and
  every other value, \<^verbatim>\<open>"internet"\<close> among them, gives the search-capable model
  \<^verbatim>\<open>gemini-2.0-flash-exp\<close>. Every provider call of the request is made on that model.
\<close>

theorem model_selection:
  "modelName_of (aiModel_of body) =
     (if get_prop body ''aiModel'' = JStr ''pro'' then ''gemini-2.5-pro-preview-06-05''
      else if get_prop body ''aiModel'' = JStr ''smart'' \<or> get_prop body ''aiModel'' = JUndefined
      then ''gemini-2.5-flash-preview-05-20''
      else ''gemini-2.0-flash-exp'')
   \<and> (\<forall>c\<in>set (calls (run (POST E (Some body)))). fst c = modelName_of (aiModel_of body))"
proof
  show "modelName_of (aiModel_of body) =
     (if get_prop body ''aiModel'' = JStr ''pro'' then ''gemini-2.5-pro-preview-06-05''
      else if get_prop body ''aiModel'' = JStr ''smart'' \<or> get_prop body ''aiModel'' = JUndefined
      then ''gemini-2.5-flash-preview-05-20''
      else ''gemini-2.0-flash-exp'')"
    by (simp add: modelName_of_def aiModel_of_def with_default_def)
  show "\<forall>c\<in>set (calls (run (POST E (Some body)))). fst c = modelName_of (aiModel_of body)"
    using POST_calls_cases[of E "Some body"] by auto
qed

theorem model_selection_witness:
  "map fst (calls (run (POST demo_env (Some pro_body)))) = [''gemini-2.5-pro-preview-06-05'']
   \<and> modelName_of (aiModel_of pro_body) = ''gemini-2.5-pro-preview-06-05''"
  using model_selection[of pro_body demo_env]
  by (simp add: handler_defs demo_defs)

text \<open>
  C1 as stated fails: it sends every value other than \<^verbatim>\<open>"pro"\<close> and \<^verbatim>\<open>"internet"\<close> to the
  standard model, but for \<^verbatim>\<open>aiModel = "other"\<close> the handler calls \<^verbatim>\<open>gemini-2.0-flash-exp\<close>.
\<close>

theorem unrecognised_tier_counterexample:
  "map fst (calls (run (POST demo_env
      (Some (JObj [(''message'', JStr ''hi''), (''aiModel'', JStr ''other'')]))))) =
     [''gemini-2.0-flash-exp'']
   \<and> ''gemini-2.0-flash-exp'' \<noteq> ''gemini-2.5-flash-preview-05-20''"
  by (simp add: handler_defs demo_defs)

subsection \<open>C2: the shape of the event stream\<close>

text \<open>
  C2. Whatever the request, the provider and the client do, the events in the outbound
  queue are Token events followed by at most one terminating event, Done or Error, and
  nothing follows the terminating event. (The queue only grows, and a run cut short at
  any point is the run of a provider that stalls there, so this holds at every moment.)
  And for a valid text-only request on a configured server, when the provider's answer,
  after the fallback, is a stream whose chunks all give their text and which ends without
  an error, and every enqueue is accepted, the queue is the Token events of the non-empty
  chunk texts in order, followed by exactly one Done.
\<close>

theorem event_sequence:
  "well_formed (queue (run (POST E parsed))) \<and>
   (configured E \<and> body \<noteq> JNull \<and> body \<noteq> JUndefined
      \<and> get_prop body ''message'' = JStr msg \<and> msg \<noteq> [] \<and> length msg \<le> 100000
      \<and> text_only E body
      \<and> model_init E (modelName_of (aiModel_of body)) = None
      \<and> fst (generateStreamWithFallback E (modelName_of (aiModel_of body)) (useGrounding_of body)
             \<lparr>contents = [\<lparr>role = ''user'', parts = [TextPart msg]\<rparr>],
              tools = Some (tools_of (aiModel_of body) (useGrounding_of body))\<rparr> idle) =
          Returned \<lparr>chunks = map Chunk texts, ending = Ends\<rparr>
      \<and> (\<forall>k. accepts E k)
    \<longrightarrow> queue (run (POST E (Some body))) = tokens_from E 0 texts @ [Done])"
proof (intro conjI impI)
  show "well_formed (queue (run (POST E parsed)))" by (rule POST_well_formed)
next
  assume h: "configured E \<and> body \<noteq> JNull \<and> body \<noteq> JUndefined
      \<and> get_prop body ''message'' = JStr msg \<and> msg \<noteq> [] \<and> length msg \<le> 100000
      \<and> text_only E body
      \<and> model_init E (modelName_of (aiModel_of body)) = None
      \<and> fst (generateStreamWithFallback E (modelName_of (aiModel_of body)) (useGrounding_of body)
             \<lparr>contents = [\<lparr>role = ''user'', parts = [TextPart msg]\<rparr>],
              tools = Some (tools_of (aiModel_of body) (useGrounding_of body))\<rparr> idle) =
          Returned \<lparr>chunks = map Chunk texts, ending = Ends\<rparr>
      \<and> (\<forall>k. accepts E k)"
  then have post: "POST E (Some body) = open_stream E body msg"
    using POST_stream by blast
  have cp: "content_parts E msg (get_prop body ''image'') (get_prop body ''images'') = Inr [TextPart msg]"
    using h by (auto simp: text_only_def content_parts_def)
  have "queue (snd (start E (modelName_of (aiModel_of body)) msg (get_prop body ''image'')
            (get_prop body ''images'') (useGrounding_of body)
            (tools_of (aiModel_of body) (useGrounding_of body)) idle)) = tokens_from E 0 texts @ [Done]"
    using start_text_only_open[OF cp] h by blast
  then show "queue (run (POST E (Some body))) = tokens_from E 0 texts @ [Done]"
    using post h by (simp add: open_stream_def Let_def)
qed

theorem event_sequence_witness:
  "well_formed (queue (run (POST demo_env (Some hello_body)))) \<and>
   queue (run (POST demo_env (Some hello_body))) = [Token ''Hel'' ''T'', Token ''lo'' ''T'', Done]"
proof -
  have "configured demo_env \<and> hello_body \<noteq> JNull \<and> hello_body \<noteq> JUndefined
      \<and> get_prop hello_body ''message'' = JStr ''hi'' \<and> ''hi'' \<noteq> [] \<and> length ''hi'' \<le> 100000
      \<and> text_only demo_env hello_body
      \<and> model_init demo_env (modelName_of (aiModel_of hello_body)) = None
      \<and> fst (generateStreamWithFallback demo_env (modelName_of (aiModel_of hello_body))
             (useGrounding_of hello_body)
             \<lparr>contents = [\<lparr>role = ''user'', parts = [TextPart ''hi'']\<rparr>],
              tools = Some (tools_of (aiModel_of hello_body) (useGrounding_of hello_body))\<rparr> idle) =
          Returned \<lparr>chunks = map Chunk [''Hel'', [], ''lo''], ending = Ends\<rparr>
      \<and> (\<forall>k. accepts demo_env k)"
    by (simp add: handler_defs demo_defs configured_def text_only_def)
  with event_sequence[of demo_env "Some hello_body" hello_body "''hi''" "[''Hel'', [], ''lo'']"]
  show ?thesis by (simp add: tokens_from_def demo_env_def)
qed

subsection \<open>C3: when the search tool is attached\<close>

text \<open>
  C3, as the code has it. The request the handler assembles for the provider holds the
  Google Search tool exactly when the \<^verbatim>\<open>aiModel\<close> property is \<^verbatim>\<open>"internet"\<close> and the
  \<^verbatim>\<open>useGrounding\<close> property is absent or truthy; its tool list is empty otherwise. For a
  boolean \<^verbatim>\<open>useGrounding\<close> that is: exactly when it is \<^verbatim>\<open>true\<close>. Every request that gets
  as far as the provider makes its first call with that list, and the retry of the
  fallback, if there is one, carries no tool list. For \<^verbatim>\<open>"pro"\<close> and \<^verbatim>\<open>"smart"\<close> every
  call has an empty or absent tool list, whatever \<^verbatim>\<open>useGrounding\<close> is.
\<close>

theorem tool_attachment:
  "tool_lists (run (POST E (Some body))) \<in>
     {[], [Some (expected_tools body)], [Some (expected_tools body), None]}
   \<and> (reaches_start E body msg
        \<and> content_parts E msg (get_prop body ''image'') (get_prop body ''images'') = Inr ps \<longrightarrow>
      tool_lists (run (POST E (Some body))) \<in>
        {[Some (expected_tools body)], [Some (expected_tools body), None]})
   \<and> (GoogleSearch \<in> set (expected_tools body)) =
        (get_prop body ''aiModel'' = JStr ''internet''
         \<and> (get_prop body ''useGrounding'' = JUndefined \<or> truthy (get_prop body ''useGrounding'')))
   \<and> (get_prop body ''useGrounding'' = JBool flag \<longrightarrow>
        (GoogleSearch \<in> set (expected_tools body)) =
          (get_prop body ''aiModel'' = JStr ''internet'' \<and> flag))
   \<and> (get_prop body ''aiModel'' = JStr ''pro'' \<or> get_prop body ''aiModel'' = JStr ''smart''
        \<longrightarrow> expected_tools body = []
          \<and> (\<forall>t\<in>set (tool_lists (run (POST E (Some body)))). t = Some [] \<or> t = None))"
proof (intro conjI impI)
  show l: "tool_lists (run (POST E (Some body))) \<in>
     {[], [Some (expected_tools body)], [Some (expected_tools body), None]}"
    using POST_tool_lists[of E body] by (simp add: tools_of_expected)
  show "(GoogleSearch \<in> set (expected_tools body)) =
        (get_prop body ''aiModel'' = JStr ''internet''
         \<and> (get_prop body ''useGrounding'' = JUndefined \<or> truthy (get_prop body ''useGrounding'')))"
    by (simp add: expected_tools_def flag_on_def)
  {
    assume "get_prop body ''useGrounding'' = JBool flag"
    then show "(GoogleSearch \<in> set (expected_tools body)) =
          (get_prop body ''aiModel'' = JStr ''internet'' \<and> flag)"
      by (simp add: expected_tools_def flag_on_def)
  }
  {
    assume "get_prop body ''aiModel'' = JStr ''pro'' \<or> get_prop body ''aiModel'' = JStr ''smart''"
    then show e: "expected_tools body = []" by (auto simp: expected_tools_def)
    then show "\<forall>t\<in>set (tool_lists (run (POST E (Some body)))). t = Some [] \<or> t = None"
      using l by auto
  }
next
  assume "reaches_start E body msg
        \<and> content_parts E msg (get_prop body ''image'') (get_prop body ''images'') = Inr ps"
  then show "tool_lists (run (POST E (Some body))) \<in>
        {[Some (expected_tools body)], [Some (expected_tools body), None]}"
    using POST_tool_lists_started by blast
qed

theorem tool_attachment_witness:
  "reaches_start picky_env internet_body ''hi''
   \<and> tool_lists (run (POST picky_env (Some internet_body))) = [Some [GoogleSearch], None]
   \<and> get_prop no_grounding_body ''useGrounding'' = JBool False
   \<and> tool_lists (run (POST demo_env (Some no_grounding_body))) = [Some []]
   \<and> get_prop pro_body ''aiModel'' = JStr ''pro''
   \<and> tool_lists (run (POST unsupported_env (Some pro_body))) = [Some [], None]"
proof -
  have a: "reaches_start picky_env internet_body ''hi''
      \<and> content_parts picky_env ''hi'' (get_prop internet_body ''image'')
            (get_prop internet_body ''images'') = Inr [TextPart ''hi'']"
    "reaches_start demo_env no_grounding_body ''hi''
      \<and> content_parts demo_env ''hi'' (get_prop no_grounding_body ''image'')
            (get_prop no_grounding_body ''images'') = Inr [TextPart ''hi'']"
    by (simp_all add: reaches_start_def configured_def content_parts_def picky_env_def
        demo_env_def internet_body_def no_grounding_body_def trim_def is_space_def)
  have b: "get_prop no_grounding_body ''useGrounding'' = JBool False"
    "get_prop pro_body ''aiModel'' = JStr ''pro''"
    by (simp_all add: no_grounding_body_def pro_body_def)
  have c: "length (tool_lists (run (POST picky_env (Some internet_body)))) = 2"
    "length (tool_lists (run (POST demo_env (Some no_grounding_body)))) = 1"
    "length (tool_lists (run (POST unsupported_env (Some pro_body)))) = 2"
    by (simp_all add: handler_defs demo_defs tool_lists_def)
  have d: "expected_tools internet_body = [GoogleSearch]" "expected_tools no_grounding_body = []"
    "expected_tools pro_body = []"
    by (simp_all add: expected_tools_def flag_on_def internet_body_def no_grounding_body_def
        pro_body_def)
  from tool_attachment[of picky_env internet_body "''hi''" "[TextPart ''hi'']" True] a(1) d(1)
  have x: "tool_lists (run (POST picky_env (Some internet_body))) \<in>
      {[Some [GoogleSearch]], [Some [GoogleSearch], None]}"
    by simp
  from tool_attachment[of demo_env no_grounding_body "''hi''" "[TextPart ''hi'']" False] a(2) d(2)
  have y: "tool_lists (run (POST demo_env (Some no_grounding_body))) \<in> {[Some []], [Some [], None]}"
    by simp
  from tool_attachment[of unsupported_env pro_body "''hi''" "[TextPart ''hi'']" True] d(3)
  have z: "tool_lists (run (POST unsupported_env (Some pro_body))) \<in>
      {[], [Some []], [Some [], None]}"
    by simp
  have "tool_lists (run (POST picky_env (Some internet_body))) = [Some [GoogleSearch], None]"
    using x c(1) by (auto dest: arg_cong[where f = length])
  moreover have "tool_lists (run (POST demo_env (Some no_grounding_body))) = [Some []]"
    using y c(2) by (auto dest: arg_cong[where f = length])
  moreover have "tool_lists (run (POST unsupported_env (Some pro_body))) = [Some [], None]"
    using z c(3) by (auto dest: arg_cong[where f = length])
  ultimately show ?thesis using a(1) b by simp
qed

text \<open>
  C3 as stated fails: it attaches the tool only when \<^verbatim>\<open>useGrounding\<close> is \<^verbatim>\<open>true\<close>. The handler
  tests the flag for truthiness, so for \<^verbatim>\<open>aiModel = "internet"\<close> and the string
  \<^verbatim>\<open>useGrounding = "false"\<close>, which is not \<^verbatim>\<open>true\<close>, the provider is called with the tool.
\<close>

theorem truthy_flag_counterexample:
  "get_prop (JObj [(''message'', JStr ''hi''), (''aiModel'', JStr ''internet''),
                   (''useGrounding'', JStr ''false'')]) ''useGrounding'' = JStr ''false''
   \<and> JStr ''false'' \<noteq> JBool True
   \<and> tool_lists (run (POST demo_env
        (Some (JObj [(''message'', JStr ''hi''), (''aiModel'', JStr ''internet''),
                     (''useGrounding'', JStr ''false'')])))) = [Some [GoogleSearch]]"
  by (simp add: handler_defs demo_defs tool_lists_def)

subsection \<open>C4: the fallback retry\<close>

text \<open>
  C4, as the code has it. When a provider call fails with an error whose message says
  that search grounding is not supported, and \<^verbatim>\<open>useGrounding\<close> is truthy, the handler calls
  the provider once more with the same configuration without its \<^verbatim>\<open>tools\<close>, and the outcome
  of that second call is final, also when it fails. Any other failure (another message,
  or a falsy \<^verbatim>\<open>useGrounding\<close>) is thrown on after the one call. No request makes more
  than two provider calls.
\<close>

theorem fallback_policy:
  "(generate E m (length (calls s)) cfg = Threw e \<and> truthy g \<and> grounding_unsupported e \<longrightarrow>
      generateStreamWithFallback E m g cfg s =
        (generate E m (Suc (length (calls s))) (cfg\<lparr>tools := None\<rparr>),
         s\<lparr>calls := calls s @ [(m, cfg), (m, cfg\<lparr>tools := None\<rparr>)]\<rparr>))
   \<and> (generate E m (length (calls s)) cfg = Threw e \<and> \<not> (truthy g \<and> grounding_unsupported e) \<longrightarrow>
      generateStreamWithFallback E m g cfg s = (Threw e, s\<lparr>calls := calls s @ [(m, cfg)]\<rparr>))
   \<and> length (calls (snd (generateStreamWithFallback E m g cfg s))) \<le> length (calls s) + 2
   \<and> length (calls (run (POST E parsed))) \<le> 2"
proof (intro conjI impI)
  show "length (calls (snd (generateStreamWithFallback E m g cfg s))) \<le> length (calls s) + 2"
    using fallback_state[of E m g cfg s] by (cases "generateStreamWithFallback E m g cfg s") auto
  show "length (calls (run (POST E parsed))) \<le> 2" by (rule POST_calls_bound)
qed (simp_all add: fallback_retry fallback_no_retry)

theorem fallback_policy_witness:
  "generateStreamWithFallback unsupported_env ''gemini-2.0-flash-exp'' (JBool True)
     \<lparr>contents = [], tools = Some [GoogleSearch]\<rparr> idle =
     (Threw (ErrorObj ''Search Grounding is not supported''),
      idle\<lparr>calls := [(''gemini-2.0-flash-exp'', \<lparr>contents = [], tools = Some [GoogleSearch]\<rparr>),
                      (''gemini-2.0-flash-exp'', \<lparr>contents = [], tools = None\<rparr>)]\<rparr>)
   \<and> generateStreamWithFallback
       (demo_env\<lparr>generate := (\<lambda>m k cfg. Threw (ErrorObj ''quota exceeded''))\<rparr>)
       ''gemini-2.0-flash-exp'' (JBool True) \<lparr>contents = [], tools = Some [GoogleSearch]\<rparr> idle =
     (Threw (ErrorObj ''quota exceeded''),
      idle\<lparr>calls := [(''gemini-2.0-flash-exp'', \<lparr>contents = [], tools = Some [GoogleSearch]\<rparr>)]\<rparr>)"
proof -
  have a: "generate unsupported_env ''gemini-2.0-flash-exp'' (length (calls idle))
        \<lparr>contents = [], tools = Some [GoogleSearch]\<rparr> = Threw (ErrorObj ''Search Grounding is not supported'')
      \<and> truthy (JBool True) \<and> grounding_unsupported (ErrorObj ''Search Grounding is not supported'')"
    by (simp add: unsupported_env_def demo_env_def grounding_unsupported_def starts_with_def)
  have b: "generate (demo_env\<lparr>generate := (\<lambda>m k cfg. Threw (ErrorObj ''quota exceeded''))\<rparr>)
        ''gemini-2.0-flash-exp'' (length (calls idle))
        \<lparr>contents = [], tools = Some [GoogleSearch]\<rparr> = Threw (ErrorObj ''quota exceeded'')
      \<and> \<not> (truthy (JBool True) \<and> grounding_unsupported (ErrorObj ''quota exceeded''))"
    by (simp add: grounding_unsupported_def starts_with_def)
  show ?thesis
    using a b
      fallback_policy[of unsupported_env "''gemini-2.0-flash-exp''" idle
        "\<lparr>contents = [], tools = Some [GoogleSearch]\<rparr>" "ErrorObj ''Search Grounding is not supported''"
        "JBool True" None]
      fallback_policy[of "demo_env\<lparr>generate := (\<lambda>m k cfg. Threw (ErrorObj ''quota exceeded''))\<rparr>"
        "''gemini-2.0-flash-exp''" idle
        "\<lparr>contents = [], tools = Some [GoogleSearch]\<rparr>" "ErrorObj ''quota exceeded''"
        "JBool True" None]
    by (simp add: unsupported_env_def demo_env_def idle_def)
qed

text \<open>
  C4 as stated fails: it promises the retry for every failure whose message says that
  grounding is not supported. With \<^verbatim>\<open>useGrounding = false\<close> that failure is not retried: the
  provider is called once and the stream carries the Error event.
\<close>

theorem no_retry_without_flag_counterexample:
  "run (POST unsupported_env
      (Some (JObj [(''message'', JStr ''hi''), (''aiModel'', JStr ''internet''),
                   (''useGrounding'', JBool False)]))) =
     \<lparr>calls = [(''gemini-2.0-flash-exp'',
                \<lparr>contents = [\<lparr>role = ''user'', parts = [TextPart ''hi'']\<rparr>], tools = Some []\<rparr>)],
      attempts = [(Error ''Search Grounding is not supported'', True)],
      queue = [Error ''Search Grounding is not supported''],
      closed = True\<rparr>"
  by (simp add: handler_defs demo_defs)

subsection \<open>C5: validation of the message\<close>




subsection \<open>C6: a client that is gone\<close>

text \<open>
  C6, as the code has it. When the enqueue of a Token event fails, the relay loop stops
  at once: no later chunk is looked at and no other Token is handed to the controller.
  The handler then still makes one enqueue attempt, for the Done event (lines 188 to
  196), which goes in if the controller accepts it and is swallowed if it throws. All
  attempts before the failed one were Token events that went in, nothing else is
  enqueued, the response is the stream response, and \<^verbatim>\<open>start\<close> never ends in a throw.
\<close>

theorem client_gone:
  "(k < length (attempts (run (POST E parsed)))
      \<and> attempts (run (POST E parsed)) ! k = (Token t ts, False) \<longrightarrow>
        drop (Suc k) (attempts (run (POST E parsed))) = [(Done, accepts E (Suc k))]
      \<and> (\<forall>x\<in>set (take k (attempts (run (POST E parsed)))). is_token (fst x) \<and> snd x)
      \<and> queue (run (POST E parsed)) =
          map fst (take k (attempts (run (POST E parsed))))
            @ (if accepts E (Suc k) then [Done] else [])
      \<and> response (POST E parsed) = StreamResponse sse_headers)
   \<and> (\<forall>e. fst (start E m msg im ims g tls s) \<noteq> Threw e)"
  using POST_failed_token[of k E parsed t ts] start_never_throws[of E m msg im ims g tls s]
  by blast

theorem client_gone_witness:
  "attempts (run (POST (demo_env\<lparr>accepts := (\<lambda>k. k < 1)\<rparr>) (Some hello_body))) ! 1 =
     (Token ''lo'' ''T'', False)
   \<and> attempts (run (POST (demo_env\<lparr>accepts := (\<lambda>k. k < 1)\<rparr>) (Some hello_body))) =
       [(Token ''Hel'' ''T'', True), (Token ''lo'' ''T'', False), (Done, False)]
   \<and> queue (run (POST (demo_env\<lparr>accepts := (\<lambda>k. k < 1)\<rparr>) (Some hello_body))) =
       [Token ''Hel'' ''T'']"
  using client_gone[of 1 "demo_env\<lparr>accepts := (\<lambda>k. k < 1)\<rparr>" "Some hello_body" "''lo''" "''T''"]
  by (simp add: handler_defs demo_defs)

text \<open>
  C6 as stated fails: it says that no further enqueue is attempted after the failure.
  With a client that is gone from the start, the Token of the first chunk is refused and
  the handler goes on to attempt the Done event.
\<close>

theorem done_attempted_after_failure_counterexample:
  "attempts (run (POST gone_env (Some (JObj [(''message'', JStr ''hi'')])))) =
     [(Token ''Hel'' ''T'', False), (Done, False)]"
  by (simp add: handler_defs demo_defs)

subsection \<open>C7: the content parts\<close>

text \<open>
  C7, as the code has it. For a request whose \<^verbatim>\<open>image\<close> is absent or a string and whose
  \<^verbatim>\<open>images\<close> is absent or an array of strings, the parts list is: with a non-empty
  \<^verbatim>\<open>images\<close> array, the text part followed by one image part per element, in array order;
  otherwise, with a non-empty \<^verbatim>\<open>image\<close> string, the text part followed by that one image
  part; otherwise (no \<^verbatim>\<open>image\<close>, or an empty one) the text part alone. Each image part is
  the string without its data-URI prefix, decoded from base64 and encoded again, with
  MIME type \<^verbatim>\<open>image/jpeg\<close>. Every provider call of the request, the retry included,
  carries exactly this parts list. The prefix \<^verbatim>\<open>data:image/<word>;base64,\<close> is removed; a
  string that does not start with \<^verbatim>\<open>data:image/\<close> is left as it is.
\<close>

theorem content_parts_cases:
  "content_parts E msg (opt_string img) (opt_strings imgs) = Inr (spec_parts E msg img imgs)
   \<and> (reaches_start E body msg \<and> get_prop body ''image'' = opt_string img
        \<and> get_prop body ''images'' = opt_strings imgs \<longrightarrow>
      map (\<lambda>c. contents (snd c)) (calls (run (POST E (Some body)))) \<in>
        {[[\<lparr>role = ''user'', parts = spec_parts E msg img imgs\<rparr>]],
         [[\<lparr>role = ''user'', parts = spec_parts E msg img imgs\<rparr>],
          [\<lparr>role = ''user'', parts = spec_parts E msg img imgs\<rparr>]]})
   \<and> (w \<noteq> [] \<and> (\<forall>c\<in>set w. is_word c) \<longrightarrow>
        strip_data_uri (''data:image/'' @ w @ '';base64,'' @ d) = d)
   \<and> (\<not> starts_with s ''data:image/'' \<longrightarrow> strip_data_uri s = s)"
  using content_parts_typed[of E msg img imgs] POST_contents[of E body msg "spec_parts E msg img imgs"]
    strip_data_uri_prefix[of w d] strip_data_uri_other[of s]
  by simp

theorem content_parts_cases_witness:
  "map (\<lambda>c. contents (snd c)) (calls (run (POST demo_env (Some two_images_body)))) =
     [[\<lparr>role = ''user'',
        parts = [TextPart ''hi'', InlineData ''AAAA'' ''image/jpeg'',
                 InlineData ''AA'' ''image/jpeg'']\<rparr>]]
   \<and> strip_data_uri ''data:image/png;base64,AAAA'' = ''AAAA''
   \<and> strip_data_uri ''BB'' = ''BB''"
proof -
  have a: "reaches_start demo_env two_images_body ''hi''
      \<and> get_prop two_images_body ''image'' = opt_string None
      \<and> get_prop two_images_body ''images'' = opt_strings (Some [''data:image/png;base64,AAAA'', ''BB''])"
    by (simp add: reaches_start_def configured_def demo_env_def two_images_body_def trim_def
        is_space_def opt_string_def opt_strings_def)
  have b: "''png'' \<noteq> [] \<and> (\<forall>c\<in>set ''png''. is_word c)" "\<not> starts_with ''BB'' ''data:image/''"
    by (simp_all add: is_word_def starts_with_def)
  have c: "length (calls (run (POST demo_env (Some two_images_body)))) = 1"
    by (simp add: handler_defs demo_defs)
  have d: "spec_parts demo_env ''hi'' None (Some [''data:image/png;base64,AAAA'', ''BB'']) =
      [TextPart ''hi'', InlineData ''AAAA'' ''image/jpeg'', InlineData ''AA'' ''image/jpeg'']"
    by (simp add: spec_parts_def spec_image_part_def strip_data_uri_def starts_with_def
        is_word_def demo_env_def)
  from content_parts_cases[of demo_env "''hi''" None "Some [''data:image/png;base64,AAAA'', ''BB'']"
      two_images_body "''png''" "''AAAA''" "''BB''"] a b
  have e: "map (\<lambda>c. contents (snd c)) (calls (run (POST demo_env (Some two_images_body)))) \<in>
        {[[\<lparr>role = ''user'', parts = spec_parts demo_env ''hi'' None (Some [''data:image/png;base64,AAAA'', ''BB''])\<rparr>]],
         [[\<lparr>role = ''user'', parts = spec_parts demo_env ''hi'' None (Some [''data:image/png;base64,AAAA'', ''BB''])\<rparr>],
          [\<lparr>role = ''user'', parts = spec_parts demo_env ''hi'' None (Some [''data:image/png;base64,AAAA'', ''BB''])\<rparr>]]}"
    and f: "strip_data_uri (''data:image/'' @ ''png'' @ '';base64,'' @ ''AAAA'') = ''AAAA''"
    and g: "strip_data_uri ''BB'' = ''BB''"
    by blast+
  have "map (\<lambda>c. contents (snd c)) (calls (run (POST demo_env (Some two_images_body)))) =
      [[\<lparr>role = ''user'', parts = spec_parts demo_env ''hi'' None (Some [''data:image/png;base64,AAAA'', ''BB''])\<rparr>]]"
    using e c by (auto dest: arg_cong[where f = length])
  then show ?thesis using d f g by simp
qed

text \<open>
  C7 as stated fails: it gives a request with a legacy \<^verbatim>\<open>image\<close> field present a text part
  and an image part. A request whose \<^verbatim>\<open>image\<close> is the empty string has the field, and the
  handler sends the text part alone.
\<close>

theorem empty_image_counterexample:
  "get_prop (JObj [(''message'', JStr ''hi''), (''image'', JStr [])]) ''image'' = JStr []
   \<and> map (\<lambda>c. contents (snd c))
       (calls (run (POST demo_env (Some (JObj [(''message'', JStr ''hi''), (''image'', JStr [])]))))) =
     [[\<lparr>role = ''user'', parts = [TextPart ''hi'']\<rparr>]]"
  by (simp add: handler_defs demo_defs)

subsection \<open>C8: the outer error path\<close>

text \<open>
  C8. An error that leaves the \<^verbatim>\<open>try\<close> of \<^verbatim>\<open>POST\<close> is answered with a JSON response whose
  status follows from the message of an \<^verbatim>\<open>Error\<close>, in this order: 401 when it contains
  \<^verbatim>\<open>API key\<close>; else 429 when it contains \<^verbatim>\<open>quota\<close> or \<^verbatim>\<open>limit\<close>; else 503 when it contains
  \<^verbatim>\<open>network\<close> or \<^verbatim>\<open>fetch\<close>; else 500; and 500 for a thrown value that is not an
  \<^verbatim>\<open>Error\<close>. The body has the generic top-level message, the classified detail message,
  a timestamp and the hint of the status.
\<close>

theorem error_classification:
  "outer_catch E e =
     \<lparr>response = JsonResponse
        \<lparr>error = ''Er is een fout opgetreden bij het verwerken van je bericht'',
         hint = Some (if spec_status e = 401
                      then ''Controleer je GEMINI_API_KEY in environment variables''
                      else if spec_status e = 429 then ''Wacht even en probeer opnieuw''
                      else if spec_status e = 503 then ''Controleer je internetverbinding''
                      else ''Probeer het opnieuw of neem contact op met support''),
         debug = None,
         details = Some (spec_details e),
         timestamp = Some (now E 0)\<rparr> (spec_status e),
      run = idle\<rparr>
   \<and> (POST_try E parsed = Inl e \<longrightarrow> POST E parsed = outer_catch E e)"
  by (simp add: outer_catch_spec status_hint_def json_def POST_def)

theorem error_classification_witness:
  "status_of (response (outer_catch demo_env (ErrorObj ''Invalid API key supplied''))) = 401
   \<and> status_of (response (outer_catch demo_env (ErrorObj ''quota exceeded''))) = 429
   \<and> status_of (response (outer_catch demo_env (ErrorObj ''rate limit''))) = 429
   \<and> status_of (response (outer_catch demo_env (ErrorObj ''network down''))) = 503
   \<and> status_of (response (outer_catch demo_env (ErrorObj ''fetch failed''))) = 503
   \<and> status_of (response (outer_catch demo_env (ErrorObj ''boom''))) = 500
   \<and> status_of (response (outer_catch demo_env (NonError None))) = 500
   \<and> POST_try demo_env (Some JNull) = Inl (ErrorObj ''TypeError'')
   \<and> status_of (response (POST demo_env (Some JNull))) = 500"
proof -
  have s: "spec_status (ErrorObj ''Invalid API key supplied'') = 401"
    "spec_status (ErrorObj ''quota exceeded'') = 429"
    "spec_status (ErrorObj ''rate limit'') = 429"
    "spec_status (ErrorObj ''network down'') = 503"
    "spec_status (ErrorObj ''fetch failed'') = 503"
    "spec_status (ErrorObj ''boom'') = 500"
    "spec_status (ErrorObj ''TypeError'') = 500"
    "spec_status (NonError None) = 500"
    by (simp_all add: spec_status_def js_includes_contains[symmetric] starts_with_def)
  have t: "POST_try demo_env (Some JNull) = Inl (ErrorObj ''TypeError'')"
    by (simp add: POST_try_def check_api_key_def demo_env_def trim_def is_space_def)
  show ?thesis
    using s t
      error_classification[of demo_env "ErrorObj ''Invalid API key supplied''" None]
      error_classification[of demo_env "ErrorObj ''quota exceeded''" None]
      error_classification[of demo_env "ErrorObj ''rate limit''" None]
      error_classification[of demo_env "ErrorObj ''network down''" None]
      error_classification[of demo_env "ErrorObj ''fetch failed''" None]
      error_classification[of demo_env "ErrorObj ''boom''" None]
      error_classification[of demo_env "NonError None" None]
      error_classification[of demo_env "ErrorObj ''TypeError''" "Some JNull"]
    by simp
qed

subsection \<open>C9: a missing credential\<close>

text \<open>
  C9. When \<^verbatim>\<open>GEMINI_API_KEY\<close> is absent, empty or all whitespace, the response is one of
  the two 500 configuration errors, whatever the body is and whether or not it parses
  (the body is not read), and the provider is not called.
\<close>

theorem missing_credential:
  "api_key E = None \<or> (\<exists>key. api_key E = Some key \<and> blank key) \<longrightarrow>
     (POST E parsed = json
        \<lparr>error = ''API configuratie ontbreekt. Check Environment Variables.'',
         hint = Some ''Voeg GEMINI_API_KEY toe aan je environment variables'',
         debug = Some ''Environment variable GEMINI_API_KEY is not set'',
         details = None, timestamp = None\<rparr> 500 \<or>
      POST E parsed = json
        \<lparr>error = ''API key is leeg of ongeldig'',
         hint = Some ''Controleer of GEMINI_API_KEY correct is ingesteld'',
         debug = Some ''GEMINI_API_KEY exists but is empty or not a string'',
         details = None, timestamp = None\<rparr> 500)
     \<and> status_of (response (POST E parsed)) = 500
     \<and> run (POST E parsed) = idle
     \<and> POST E parsed = POST E None"
proof
  assume "api_key E = None \<or> (\<exists>key. api_key E = Some key \<and> blank key)"
  then have n: "\<not> configured E" by (simp add: not_configured)
  then have p: "POST E parsed = the (check_api_key E)" "POST E None = the (check_api_key E)"
    by (simp_all add: POST_unconfigured)
  then have q: "POST E parsed = POST E None" by simp
  have "check_api_key E \<noteq> None" using n by (simp add: check_api_key_configured)
  with check_api_key_replies[of E] p(1)
  have r: "POST E parsed = json
        \<lparr>error = ''API configuratie ontbreekt. Check Environment Variables.'',
         hint = Some ''Voeg GEMINI_API_KEY toe aan je environment variables'',
         debug = Some ''Environment variable GEMINI_API_KEY is not set'',
         details = None, timestamp = None\<rparr> 500 \<or>
      POST E parsed = json
        \<lparr>error = ''API key is leeg of ongeldig'',
         hint = Some ''Controleer of GEMINI_API_KEY correct is ingesteld'',
         debug = Some ''GEMINI_API_KEY exists but is empty or not a string'',
         details = None, timestamp = None\<rparr> 500"
    by auto
  then have "status_of (response (POST E parsed)) = 500" "run (POST E parsed) = idle"
    by (auto simp: json_def)
  with q r
  show "(POST E parsed = json
        \<lparr>error = ''API configuratie ontbreekt. Check Environment Variables.'',
         hint = Some ''Voeg GEMINI_API_KEY toe aan je environment variables'',
         debug = Some ''Environment variable GEMINI_API_KEY is not set'',
         details = None, timestamp = None\<rparr> 500 \<or>
      POST E parsed = json
        \<lparr>error = ''API key is leeg of ongeldig'',
         hint = Some ''Controleer of GEMINI_API_KEY correct is ingesteld'',
         debug = Some ''GEMINI_API_KEY exists but is empty or not a string'',
         details = None, timestamp = None\<rparr> 500)
     \<and> status_of (response (POST E parsed)) = 500
     \<and> run (POST E parsed) = idle
     \<and> POST E parsed = POST E None"
    by blast
qed

theorem missing_credential_witness:
  "api_key unconfigured_env = None
   \<and> status_of (response (POST unconfigured_env (Some hello_body))) = 500
   \<and> run (POST unconfigured_env (Some hello_body)) = idle
   \<and> blank '' ''
   \<and> status_of (response (POST (demo_env\<lparr>api_key := Some '' ''\<rparr>) (Some hello_body))) = 500"
proof -
  have a: "api_key unconfigured_env = None" by (simp add: unconfigured_env_def)
  have b: "api_key (demo_env\<lparr>api_key := Some '' ''\<rparr>) = Some '' ''" "blank '' ''"
    by (simp_all add: blank_def is_space_def)
  have x: "status_of (response (POST unconfigured_env (Some hello_body))) = 500
      \<and> run (POST unconfigured_env (Some hello_body)) = idle"
    using a missing_credential[of unconfigured_env "Some hello_body"] by blast
  have y: "status_of (response (POST (demo_env\<lparr>api_key := Some '' ''\<rparr>) (Some hello_body))) = 500"
    using b missing_credential[of "demo_env\<lparr>api_key := Some '' ''\<rparr>" "Some hello_body"] by blast
  show ?thesis using a b(2) x y by blast
qed

subsection \<open>C10: the retry is gated on the flag, not on the tier\<close>

text \<open>
  C10. Take a request that reaches the stream and whose first provider call fails with
  an error saying that search grounding is not supported. If the request's
  \<^verbatim>\<open>useGrounding\<close> is falsy (present and not truthy) there is no retry: the provider is
  called once and the only enqueue attempt is the Error event with the error's message.
  If it is absent or truthy the provider is called a second time without tools, whatever
  \<^verbatim>\<open>aiModel\<close> is, so also for a tier whose tool list was empty.
\<close>

theorem grounding_gate:
  "reaches_start E body msg
     \<and> content_parts E msg (get_prop body ''image'') (get_prop body ''images'') = Inr ps
     \<and> generate E (modelName_of (aiModel_of body)) 0 (first_config body ps) = Threw e
     \<and> grounding_unsupported e \<longrightarrow>
   (\<not> flag_on (get_prop body ''useGrounding'') \<longrightarrow>
      run (POST E (Some body)) =
        \<lparr>calls = [(modelName_of (aiModel_of body), first_config body ps)],
         attempts = [(Error (streaming_error_message e), accepts E 0)],
         queue = (if accepts E 0 then [Error (streaming_error_message e)] else []),
         closed = accepts E 0\<rparr>)
   \<and> (flag_on (get_prop body ''useGrounding'') \<longrightarrow>
      calls (run (POST E (Some body))) =
        [(modelName_of (aiModel_of body), first_config body ps),
         (modelName_of (aiModel_of body), (first_config body ps)\<lparr>tools := None\<rparr>)])"
proof (intro impI conjI)
  assume h: "reaches_start E body msg
     \<and> content_parts E msg (get_prop body ''image'') (get_prop body ''images'') = Inr ps
     \<and> generate E (modelName_of (aiModel_of body)) 0 (first_config body ps) = Threw e
     \<and> grounding_unsupported e"
  let ?m = "modelName_of (aiModel_of body)"
  let ?st = "start E ?m msg (get_prop body ''image'') (get_prop body ''images'')
      (useGrounding_of body) (tools_of (aiModel_of body) (useGrounding_of body)) idle"
  have run: "run (POST E (Some body)) = snd ?st" using h POST_run[of E body msg] by simp
  have g0: "generate E ?m (length (calls idle)) (first_config body ps) = Threw e"
    using h by (simp add: idle_def)
  {
    assume f: "\<not> flag_on (get_prop body ''useGrounding'')"
    have "generateStreamWithFallback E ?m (useGrounding_of body) (first_config body ps) idle =
        (Threw e, idle\<lparr>calls := calls idle @ [(?m, first_config body ps)]\<rparr>)"
      using fallback_no_retry[OF g0] f by (simp add: flag_on_useGrounding)
    then have "?st = (Returned (), send_error E e (idle\<lparr>calls := calls idle @ [(?m, first_config body ps)]\<rparr>))"
      using h start_provider_error by (simp add: first_config_def)
    then show "run (POST E (Some body)) =
        \<lparr>calls = [(?m, first_config body ps)],
         attempts = [(Error (streaming_error_message e), accepts E 0)],
         queue = (if accepts E 0 then [Error (streaming_error_message e)] else []),
         closed = accepts E 0\<rparr>"
      using run by (simp add: send_error_def enqueue_def idle_def)
  }
  {
    assume t: "flag_on (get_prop body ''useGrounding'')"
    have "generateStreamWithFallback E ?m (useGrounding_of body) (first_config body ps) idle =
        (generate E ?m (Suc (length (calls idle))) ((first_config body ps)\<lparr>tools := None\<rparr>),
         idle\<lparr>calls := calls idle @ [(?m, first_config body ps),
                                        (?m, (first_config body ps)\<lparr>tools := None\<rparr>)]\<rparr>)"
      using fallback_retry[OF g0 t[folded flag_on_useGrounding]] h by simp
    then have "calls (snd ?st) = [(?m, first_config body ps), (?m, (first_config body ps)\<lparr>tools := None\<rparr>)]"
      using h by (simp add: start_calls start_try_calls first_config_def idle_def)
    then show "calls (run (POST E (Some body))) =
        [(?m, first_config body ps), (?m, (first_config body ps)\<lparr>tools := None\<rparr>)]"
      using run by simp
  }
qed

theorem grounding_gate_witness:
  "get_prop no_grounding_body ''useGrounding'' = JBool False
   \<and> run (POST unsupported_env (Some no_grounding_body)) =
       \<lparr>calls = [(''gemini-2.0-flash-exp'',
                  \<lparr>contents = [\<lparr>role = ''user'', parts = [TextPart ''hi'']\<rparr>], tools = Some []\<rparr>)],
        attempts = [(Error ''Search Grounding is not supported'', True)],
        queue = [Error ''Search Grounding is not supported''],
        closed = True\<rparr>
   \<and> get_prop pro_body ''useGrounding'' = JUndefined
   \<and> calls (run (POST unsupported_env (Some pro_body))) =
       [(''gemini-2.5-pro-preview-06-05'',
         \<lparr>contents = [\<lparr>role = ''user'', parts = [TextPart ''hi'']\<rparr>], tools = Some []\<rparr>),
        (''gemini-2.5-pro-preview-06-05'',
         \<lparr>contents = [\<lparr>role = ''user'', parts = [TextPart ''hi'']\<rparr>], tools = None\<rparr>)]"
proof -
  have a: "reaches_start unsupported_env no_grounding_body ''hi''
     \<and> content_parts unsupported_env ''hi'' (get_prop no_grounding_body ''image'')
         (get_prop no_grounding_body ''images'') = Inr [TextPart ''hi'']
     \<and> generate unsupported_env (modelName_of (aiModel_of no_grounding_body)) 0
         (first_config no_grounding_body [TextPart ''hi'']) =
         Threw (ErrorObj ''Search Grounding is not supported'')
     \<and> grounding_unsupported (ErrorObj ''Search Grounding is not supported'')"
    by (simp add: unsupported_message reaches_start_def configured_def content_parts_def
        unsupported_env_def demo_env_def no_grounding_body_def trim_def is_space_def)
  have b: "reaches_start unsupported_env pro_body ''hi''
     \<and> content_parts unsupported_env ''hi'' (get_prop pro_body ''image'')
         (get_prop pro_body ''images'') = Inr [TextPart ''hi'']
     \<and> generate unsupported_env (modelName_of (aiModel_of pro_body)) 0
         (first_config pro_body [TextPart ''hi'']) =
         Threw (ErrorObj ''Search Grounding is not supported'')
     \<and> grounding_unsupported (ErrorObj ''Search Grounding is not supported'')"
    by (simp add: unsupported_message reaches_start_def configured_def content_parts_def
        unsupported_env_def demo_env_def pro_body_def trim_def is_space_def)
  have c: "get_prop no_grounding_body ''useGrounding'' = JBool False"
    "get_prop pro_body ''useGrounding'' = JUndefined"
    by (simp_all add: no_grounding_body_def pro_body_def)
  show ?thesis
    using a b c
      grounding_gate[of unsupported_env no_grounding_body "''hi''" "[TextPart ''hi'']"
        "ErrorObj ''Search Grounding is not supported''"]
      grounding_gate[of unsupported_env pro_body "''hi''" "[TextPart ''hi'']"
        "ErrorObj ''Search Grounding is not supported''"]
    by (simp add: first_config_def modelName_of_def aiModel_of_def useGrounding_of_def
        with_default_def tools_of_def flag_on_def no_grounding_body_def pro_body_def
        unsupported_env_def demo_env_def)
qed

end
